theory Spec2Isabelle
  imports Complex_Main "HOL-Library.Char_ord" "HOL-Library.List_Lexorder" "HOL-Library.Sublist"
begin

section \<open>The typ test runner: data model\<close>

text \<open>
  A shallow embedding of \<^verbatim>\<open>typ/runner.py\<close> and \<^verbatim>\<open>typ/arg_parser.py\<close>.
  Python objects are records, raised exceptions are values, mutation is explicit state
  passing, and the calls the runner makes on its printer, on its pool and on the shared
  \<^verbatim>\<open>args\<close> object are recorded, in order, in an event log.
  Timestamps are Python floats in the source; they are modelled as reals and no theorem
  below depends on their values.
\<close>

subsection \<open>Exceptions\<close>

datatype exn =
    ImportError string
  | AttributeError string
  | UnboundLocalError string
  | AssertionError
  | KeyError string
  | ValueError string
  | SyntaxError string
  | AddTestsError string
  | KeyboardInterrupt
  | OtherException string

text \<open>\<^verbatim>\<open>except Exception\<close> catches every exception but those deriving from
  \<^verbatim>\<open>BaseException\<close> only.\<close>

fun is_Exception :: "exn \<Rightarrow> bool" where
  "is_Exception KeyboardInterrupt = False"
| "is_Exception _ = True"

text \<open>\<^verbatim>\<open>str(e)\<close>.\<close>

fun str_exn :: "exn \<Rightarrow> string" where
  "str_exn (ImportError m) = m"
| "str_exn (AttributeError m) = m"
| "str_exn (UnboundLocalError m) = m"
| "str_exn AssertionError = ''''"
| "str_exn (KeyError k) = [CHR 0x27] @ k @ [CHR 0x27]"
| "str_exn (ValueError m) = m"
| "str_exn (SyntaxError m) = m"
| "str_exn (AddTestsError m) = m"
| "str_exn KeyboardInterrupt = ''''"
| "str_exn (OtherException m) = m"

text \<open>The interpreter: the source runs under Python 2 and Python 3 (\<^verbatim>\<open>arg_parser.py\<close>
  tests \<^verbatim>\<open>sys.version_info.major == 3\<close>). The two differ in one place that matters
  here: Python 3 unbinds the name of \<^verbatim>\<open>except ... as e\<close> when the handler ends,
  Python 2 keeps it bound.\<close>

datatype py_version = Py2 | Py3

subsection \<open>Results\<close>

text \<open>\<^verbatim>\<open>json_results.ResultType\<close>: the three outcomes the runner uses (the values
  \<^verbatim>\<open>_print_test_finished\<close> asserts).\<close>

datatype ResultType = Pass | Failure | Skip

record TestInput =
  ti_name :: string
  ti_msg :: string
  ti_timeout :: "real option"
  ti_expected :: "ResultType list option"

text \<open>\<^verbatim>\<open>TestInput(name, msg='', timeout=None, expected=None)\<close>.\<close>

definition TestInput_init :: "string \<Rightarrow> string \<Rightarrow> TestInput" where
  "TestInput_init n m = \<lparr>ti_name = n, ti_msg = m, ti_timeout = None, ti_expected = None\<rparr>"

record Result =
  name :: string
  actual :: ResultType
  started :: real
  took :: real
  worker :: nat
  expected :: "ResultType list"
  unexpected :: bool
  flaky :: bool
  code :: int
  out :: string
  err :: string
  pid :: nat

text \<open>The class \<^verbatim>\<open>json_results.Result\<close> is declared outside the two source files.
  The runner constructs it with the five positional arguments \<^verbatim>\<open>name, actual, started,
  took, worker\<close> and a varying selection of the keyword arguments \<^verbatim>\<open>expected,
  unexpected, flaky, code, out, err, pid\<close> (the attribute names \<^verbatim>\<open>_trace_from_results\<close>
  reads). The values the constructor gives to keyword arguments that a call leaves out are a
  parameter of the model.\<close>

record Result_defaults =
  d_expected :: "ResultType list"
  d_unexpected :: bool
  d_flaky :: bool
  d_code :: int
  d_out :: string
  d_err :: string
  d_pid :: nat

definition Result_init ::
  "Result_defaults \<Rightarrow> string \<Rightarrow> ResultType \<Rightarrow> real \<Rightarrow> real \<Rightarrow> nat \<Rightarrow>
   ResultType list option \<Rightarrow> bool option \<Rightarrow> bool option \<Rightarrow> int option \<Rightarrow>
   string option \<Rightarrow> string option \<Rightarrow> nat option \<Rightarrow> Result" where
  "Result_init d n a s t w e u f c ou er p =
     \<lparr>name = n, actual = a, started = s, took = t, worker = w,
      expected = (case e of None \<Rightarrow> d_expected d | Some v \<Rightarrow> v),
      unexpected = (case u of None \<Rightarrow> d_unexpected d | Some v \<Rightarrow> v),
      flaky = (case f of None \<Rightarrow> d_flaky d | Some v \<Rightarrow> v),
      code = (case c of None \<Rightarrow> d_code d | Some v \<Rightarrow> v),
      out = (case ou of None \<Rightarrow> d_out d | Some v \<Rightarrow> v),
      err = (case er of None \<Rightarrow> d_err d | Some v \<Rightarrow> v),
      pid = (case p of None \<Rightarrow> d_pid d | Some v \<Rightarrow> v)\<rparr>"

subsection \<open>The raw outcome of executing a unit\<close>

text \<open>\<^verbatim>\<open>unittest.TestResult\<close>: four lists of pairs (test id, text) and the list of
  unexpected successes.\<close>

record TestResult =
  failures :: "(string \<times> string) list"
  errors :: "(string \<times> string) list"
  skipped :: "(string \<times> string) list"
  expectedFailures :: "(string \<times> string) list"
  unexpectedSuccesses :: "string list"

subsection \<open>Strings\<close>

text \<open>Truthiness of an optional string: set and not empty.\<close>

fun truthy :: "string option \<Rightarrow> bool" where
  "truthy None = False"
| "truthy (Some v) = (v \<noteq> [])"

text \<open>\<^verbatim>\<open>s.split(c)\<close> for a one-character separator: one more piece than the string has
  separators, so never the empty list (the case for \<open>[]\<close> below is not reached).\<close>

fun split_on :: "char \<Rightarrow> string \<Rightarrow> string list" where
  "split_on c [] = [[]]"
| "split_on c (x # xs) =
     (if x = c then [] # split_on c xs
      else (case split_on c xs of [] \<Rightarrow> [[x]] | y # ys \<Rightarrow> (x # y) # ys))"

text \<open>\<^verbatim>\<open>sep.join(xs)\<close>.\<close>

fun join :: "string \<Rightarrow> string list \<Rightarrow> string" where
  "join sep [] = []"
| "join sep [x] = x"
| "join sep (x # y # ys) = x @ sep @ join sep (y # ys)"

subsection \<open>Suites, the loader and the host\<close>

text \<open>A \<^verbatim>\<open>unittest\<close> suite is the list of its members, each a test case (known by its
  \<^verbatim>\<open>id()\<close>) or a nested suite; \<^verbatim>\<open>list(suite)\<close> is that list.\<close>

datatype test_obj = TestCase string | TestSuite "test_obj list"

text \<open>What is fixed for a whole run: the interpreter and the \<^verbatim>\<open>Result\<close>
  constructor's defaults.\<close>

record Params =
  py :: py_version
  dflt :: Result_defaults

text \<open>What a worker consumes from outside the two source files while it executes one
  unit: the \<^verbatim>\<open>unittest\<close> loader, \<^verbatim>\<open>importlib\<close> (a module is known by its name),
  and running a suite, which yields a \<^verbatim>\<open>TestResult\<close> and the text written to stdout
  and stderr meanwhile. The same name may behave differently each time it is executed, so
  every execution has a world of its own.\<close>

record World =
  loadTestsFromName :: "string \<Rightarrow> exn + test_obj list"
  import_module :: "string \<Rightarrow> exn + string"
  loadTestsFromModule :: "string \<Rightarrow> exn + test_obj list"
  suite_run :: "test_obj list \<Rightarrow> exn + (TestResult \<times> string \<times> string)"
  run_under_debugger :: "test_obj list \<Rightarrow> exn + (TestResult \<times> string \<times> string)"

record Host =
  h_pid :: nat
  h_clock :: "nat \<Rightarrow> real"
  h_ticks :: nat
  h_capturing :: bool
  h_diverted :: bool
  h_out :: string
  h_err :: string

text \<open>Modelled from the spec: the class \<^verbatim>\<open>typ.host.Host\<close> is not among the source
  files. The spec lists its capabilities: wall-clock time, process id and output
  capture/restore to a per-invocation buffer. Each reading of the clock is the next value
  of \<open>h_clock\<close>; \<^verbatim>\<open>capture_output\<close> starts a fresh buffer, \<^verbatim>\<open>restore_output\<close>
  ends the capture and returns the buffered text.\<close>

definition host_time :: "Host \<Rightarrow> real \<times> Host" where
  "host_time h = (h_clock h (h_ticks h), h\<lparr>h_ticks := Suc (h_ticks h)\<rparr>)"

definition capture_output :: "bool \<Rightarrow> Host \<Rightarrow> Host" where
  "capture_output divert h =
     h\<lparr>h_capturing := True, h_diverted := divert, h_out := [], h_err := []\<rparr>"

definition restore_output :: "Host \<Rightarrow> (string \<times> string) \<times> Host" where
  "restore_output h = ((h_out h, h_err h), h\<lparr>h_capturing := False, h_diverted := False\<rparr>)"

definition host_write :: "string \<Rightarrow> string \<Rightarrow> Host \<Rightarrow> Host" where
  "host_write o' e' h = h\<lparr>h_out := h_out h @ o', h_err := h_err h @ e'\<rparr>"

text \<open>\<^verbatim>\<open>_Child\<close>, with the fields \<^verbatim>\<open>_run_one_test\<close> and \<^verbatim>\<open>_load_via_load_tests\<close>
  read or write. (The coverage handle, the shared context and the setup and teardown hooks
  are carried by the source object and never inspected by the functions modelled here.)\<close>

record Child =
  c_host :: Host
  c_worker_num :: nat
  c_debugger :: bool
  c_dry_run :: bool
  c_passthrough :: bool
  loaded_suites :: "string \<rightharpoonup> test_obj list option"

section \<open>Fallback resolution\<close>

fun is_ImportError :: "exn \<Rightarrow> bool" where
  "is_ImportError (ImportError _) = True"
| "is_ImportError _ = False"

text \<open>The body of \<^verbatim>\<open>if name not in child.loaded_suites\<close>: an \<^verbatim>\<open>ImportError\<close> is
  swallowed and \<^verbatim>\<open>None\<close> is cached, any other exception leaves the function.\<close>

definition load_suite_cached ::
  "World \<Rightarrow> (string \<rightharpoonup> test_obj list option) \<Rightarrow> string \<Rightarrow>
   exn + (string \<rightharpoonup> test_obj list option)" where
  "load_suite_cached W cache nm =
     (if cache nm = None then
        (case import_module W nm of
           Inl e \<Rightarrow> if is_ImportError e then Inr (cache(nm \<mapsto> None)) else Inl e
         | Inr modl \<Rightarrow>
             (case loadTestsFromModule W modl of
                Inl e \<Rightarrow> Inl e
              | Inr suite \<Rightarrow> Inr (cache(nm \<mapsto> Some suite))))
      else Inr cache)"

text \<open>The inner \<^verbatim>\<open>for test_case in suite\<close>: the assertion fails on a member that is not a
  test case; the first member with the requested id is added and the \<^verbatim>\<open>for\<close> loop is
  left.\<close>

fun scan_suite :: "string \<Rightarrow> test_obj list \<Rightarrow> exn + test_obj list" where
  "scan_suite test_name [] = Inr []"
| "scan_suite test_name (TestSuite ms # rest) = Inl AssertionError"
| "scan_suite test_name (TestCase i # rest) =
     (if i = test_name then Inr [TestCase i] else scan_suite test_name rest)"

text \<open>The \<^verbatim>\<open>while comps\<close> loop of \<^verbatim>\<open>_load_via_load_tests\<close>; \<^verbatim>\<open>comps.pop()\<close> is
  \<open>butlast\<close>. The cache is returned on every path: a raise does not undo the entries
  written before it.\<close>

function load_via_loop ::
  "World \<Rightarrow> string \<Rightarrow> string list \<Rightarrow> (string \<rightharpoonup> test_obj list option) \<Rightarrow> test_obj list \<Rightarrow>
   (exn + test_obj list) \<times> (string \<rightharpoonup> test_obj list option)" where
  "load_via_loop W test_name comps cache new_suite =
     (if comps = [] then (Inr new_suite, cache)
      else
        (let nm = join ''.'' comps in
         case load_suite_cached W cache nm of
           Inl e \<Rightarrow> (Inl e, cache)
         | Inr cache' \<Rightarrow>
             (case cache' nm of
                None \<Rightarrow> (Inl (KeyError nm), cache')
              | Some None \<Rightarrow> load_via_loop W test_name (butlast comps) cache' new_suite
              | Some (Some suite) \<Rightarrow>
                  (case scan_suite test_name suite of
                     Inl e \<Rightarrow> (Inl e, cache')
                   | Inr found \<Rightarrow>
                       load_via_loop W test_name (butlast comps) cache' (new_suite @ found)))))"
  by pat_completeness auto
termination
  by (relation "measure (\<lambda>(W, test_name, comps, cache, new_suite). length comps)") auto

definition load_via_load_tests ::
  "World \<Rightarrow> Child \<Rightarrow> string \<Rightarrow> (exn + test_obj list) \<times> Child" where
  "load_via_load_tests W child test_name =
     (case load_via_loop W test_name (split_on CHR ''.'' test_name) (loaded_suites child) [] of
        (r, cache) \<Rightarrow> (r, child\<lparr>loaded_suites := cache\<rparr>))"

text \<open>The names the walk forms, longest first.\<close>

fun walk_names :: "string list \<Rightarrow> string list" where
  "walk_names comps = (if comps = [] then [] else join ''.'' comps # walk_names (butlast comps))"

text \<open>What the walk takes from the cache entry of one prefix: the requested unit, once,
  when the loaded group holds it.\<close>

definition first_match :: "string \<Rightarrow> test_obj list option option \<Rightarrow> test_obj list" where
  "first_match test_name entry =
     (case entry of
        Some (Some suite) \<Rightarrow> if TestCase test_name \<in> set suite then [TestCase test_name] else []
      | _ \<Rightarrow> [])"

declare walk_names.simps [simp del]
declare load_via_loop.simps [simp del]

section \<open>Outcome classification\<close>

text \<open>\<^verbatim>\<open>_result_from_test_result\<close>. The branches are tested on non-empty lists, so
  \<^verbatim>\<open>xs[0][1]\<close> is \<open>snd (hd xs)\<close> where it is read.\<close>

definition result_from_test_result ::
  "Result_defaults \<Rightarrow> TestResult \<Rightarrow> string \<Rightarrow> real \<Rightarrow> real \<Rightarrow> string \<Rightarrow> string \<Rightarrow>
   nat \<Rightarrow> nat \<Rightarrow> Result" where
  "result_from_test_result d test_result test_name start took' out' err' worker_num pid' =
    (let flaky' = False in
     if failures test_result \<noteq> [] then
       Result_init d test_name Failure start took' worker_num
         (Some [Pass]) (Some True) (Some flaky') (Some 1) (Some out')
         (Some (err' @ snd (hd (failures test_result)))) (Some pid')
     else if errors test_result \<noteq> [] then
       Result_init d test_name Failure start took' worker_num
         (Some [Pass]) (Some True) (Some flaky') (Some 1) (Some out')
         (Some (err' @ snd (hd (errors test_result)))) (Some pid')
     else if skipped test_result \<noteq> [] then
       Result_init d test_name Skip start took' worker_num
         (Some [Skip]) (Some False) (Some flaky') (Some 0) (Some out')
         (Some (err' @ snd (hd (skipped test_result)))) (Some pid')
     else if expectedFailures test_result \<noteq> [] then
       Result_init d test_name Failure start took' worker_num
         (Some [Failure]) (Some False) (Some flaky') (Some 1) (Some out')
         (Some (err' @ snd (hd (expectedFailures test_result)))) (Some pid')
     else if unexpectedSuccesses test_result \<noteq> [] then
       Result_init d test_name Pass start took' worker_num
         (Some [Failure]) (Some True) (Some flaky') (Some 0) (Some out')
         (Some err') (Some pid')
     else
       Result_init d test_name Pass start took' worker_num
         (Some [Pass]) (Some False) (Some flaky') (Some 0) (Some out')
         (Some err') (Some pid'))"

text \<open>The verdict of a Result: the four fields the precedence table fixes.\<close>

definition verdict :: "Result \<Rightarrow> ResultType \<times> ResultType list \<times> bool \<times> int" where
  "verdict r = (actual r, expected r, unexpected r, code r)"

section \<open>Executing one unit in a worker\<close>

text \<open>\<^verbatim>\<open>_run_one_test\<close>. The local name \<^verbatim>\<open>e\<close> is bound only by the handler
  \<^verbatim>\<open>except Exception as e\<close>; after the \<^verbatim>\<open>try\<close> statement it is unbound when no
  exception was caught, and under Python 3 also when one was. Reading an unbound local
  raises \<^verbatim>\<open>UnboundLocalError\<close>.\<close>

definition e_after_handler :: "Params \<Rightarrow> exn \<Rightarrow> exn option" where
  "e_after_handler P e = (case py P of Py2 \<Rightarrow> Some e | Py3 \<Rightarrow> None)"

definition unbound_e :: exn where
  "unbound_e = UnboundLocalError ''local variable 'e' referenced before assignment''"

text \<open>The \<^verbatim>\<open>try\<close> statement that resolves the name: the suite, the binding of
  \<^verbatim>\<open>e\<close> after it, and the child (the fallback writes its cache).\<close>

definition resolve_unit ::
  "Params \<Rightarrow> World \<Rightarrow> Child \<Rightarrow> string \<Rightarrow> (exn + test_obj list \<times> exn option) \<times> Child" where
  "resolve_unit P W child test_name =
     (case loadTestsFromName W test_name of
        Inr suite \<Rightarrow> (Inr (suite, None), child)
      | Inl e \<Rightarrow>
          if is_Exception e then
            (case load_via_load_tests W child test_name of
               (Inl e', child') \<Rightarrow> (Inl e', child')
             | (Inr suite, child') \<Rightarrow> (Inr (suite, e_after_handler P e), child'))
          else (Inl e, child))"

text \<open>The \<^verbatim>\<open>try ... finally\<close> that runs the suite: the \<^verbatim>\<open>finally\<close> clause restores
  the output on both exits.\<close>

definition run_suite ::
  "World \<Rightarrow> Child \<Rightarrow> test_obj list \<Rightarrow> (exn + TestResult \<times> string \<times> string) \<times> Host" where
  "run_suite W child suite =
     (let h = c_host child;
          ran = (if c_dry_run child then Inr (\<lparr>failures = [], errors = [], skipped = [],
                     expectedFailures = [], unexpectedSuccesses = []\<rparr>, [], [])
                 else if c_debugger child then run_under_debugger W suite
                 else suite_run W suite)
      in case ran of
           Inl e \<Rightarrow> (Inl e, snd (restore_output h))
         | Inr (test_result, o', e') \<Rightarrow>
             (case restore_output (host_write o' e' h) of
                ((out', err'), h') \<Rightarrow> (Inr (test_result, out', err'), h')))"

text \<open>When the single member is a \<^verbatim>\<open>typ.test_case.TestCase\<close>, the source stores the
  child and its context on it before the run; the model has no such attributes.\<close>

definition run_one_test ::
  "Params \<Rightarrow> World \<Rightarrow> Child \<Rightarrow> TestInput \<Rightarrow> (exn + Result) \<times> Child" where
  "run_one_test P W child test_input =
     (let h = c_host child;
          pid' = h_pid h;
          test_name = ti_name test_input;
          (start, h1) = host_time h;
          child1 = child\<lparr>c_host := capture_output (\<not> c_passthrough child) h1\<rparr>
      in case resolve_unit P W child1 test_name of
           (Inl e, child2) \<Rightarrow> (Inl e, child2)
         | (Inr (suite, e_var), child2) \<Rightarrow>
             if length suite \<noteq> 1 then
               (case e_var of
                  None \<Rightarrow> (Inl unbound_e, child2)
                | Some e \<Rightarrow>
                    (let err' = ''failed to load '' @ test_name @ '': '' @ str_exn e;
                         h2 = snd (restore_output (c_host child2))
                     in (Inr (Result_init (dflt P) test_name Failure start 0 (c_worker_num child2)
                               None (Some True) None (Some 1) None (Some err') (Some pid')),
                         child2\<lparr>c_host := h2\<rparr>)))
             else
               (case run_suite W child2 suite of
                  (Inl e, h2) \<Rightarrow> (Inl e, child2\<lparr>c_host := h2\<rparr>)
                | (Inr (test_result, out', err'), h2) \<Rightarrow>
                    (case host_time h2 of
                       (now, h3) \<Rightarrow>
                         (Inr (result_from_test_result (dflt P) test_result test_name start
                                 (now - start) out' err' (c_worker_num child2) pid'),
                          child2\<lparr>c_host := h3\<rparr>))))"

section \<open>The runner, its printer and its pool\<close>

text \<open>The calls the runner makes, in order: on the pool (\<^verbatim>\<open>make_pool\<close>, \<^verbatim>\<open>send\<close>,
  \<^verbatim>\<open>get\<close>, \<^verbatim>\<open>close\<close>, \<^verbatim>\<open>join\<close>; a unit is named by its name), on the printer
  (\<^verbatim>\<open>update\<close> with its \<^verbatim>\<open>elide\<close> flag, \<^verbatim>\<open>flush\<close>), on \<^verbatim>\<open>print_\<close> (one
  fixed line, the lines of a text, or the retry banner with its attempt number and limit),
  on the host (\<^verbatim>\<open>write_text_file\<close> with its path, \<^verbatim>\<open>fetch\<close> with its server), and its
  assignments to \<^verbatim>\<open>args.overwrite\<close>,
  \<^verbatim>\<open>printer.should_overwrite\<close> and \<^verbatim>\<open>args.verbose\<close>. The text of progress lines is
  built by \<^verbatim>\<open>Stats.format\<close>, which is outside the source files, and is not recorded.\<close>

datatype event =
    MakePool int
  | PoolSend string
  | PoolGet string
  | PoolClose
  | PoolJoin
  | PrinterUpdate bool
  | PrinterFlush
  | PrintLine string
  | PrintLines string
  | PrintRetrying int int
  | WriteTextFile string
  | Fetch string
  | SetArgsOverwrite bool
  | SetShouldOverwrite bool
  | SetArgsVerbose int

text \<open>\<^verbatim>\<open>Runner\<close>: the fields of \<^verbatim>\<open>self.args\<close> the modelled methods read, the printer's
  \<^verbatim>\<open>should_overwrite\<close>, the host of the parent process, the number of results received
  from pools so far, and the event log.\<close>

record Runner =
  args_jobs :: int
  args_quiet :: bool
  args_overwrite :: bool
  args_verbose :: int
  args_timing :: bool
  args_retry_limit :: int
  args_metadata :: "string list"
  args_list_only :: bool
  args_version :: bool
  args_test_results_server :: "string option"
  args_write_full_results_to :: "string option"
  args_write_trace_to :: "string option"
  args_dry_run :: bool
  args_debugger :: bool
  args_passthrough :: bool
  should_overwrite :: bool
  r_host :: Host
  r_gets :: nat
  events :: "event list"

text \<open>\<^verbatim>\<open>Stats\<close>: the three counters the runner writes and the start time it reads.\<close>

record Stats =
  st_total :: nat
  st_started :: nat
  st_finished :: nat
  st_started_time :: real

definition emit :: "event list \<Rightarrow> Runner \<Rightarrow> Runner" where
  "emit es r = r\<lparr>events := events r @ es\<rparr>"

text \<open>\<^verbatim>\<open>_print_test_started\<close>; \<^verbatim>\<open>not self.args.verbose\<close> is \<open>args_verbose r = 0\<close>.\<close>

definition print_test_started :: "Runner \<Rightarrow> Stats \<Rightarrow> TestInput \<Rightarrow> Runner" where
  "print_test_started r stats test_input =
     (if \<not> args_quiet r \<and> args_overwrite r
      then emit [PrinterUpdate (args_verbose r = 0)] r else r)"

text \<open>\<^verbatim>\<open>_print_test_finished\<close>. Its assertion lists the three constructors of
  \<open>ResultType\<close> and cannot fail.\<close>

definition print_test_finished :: "Runner \<Rightarrow> Stats \<Rightarrow> Result \<Rightarrow> Runner" where
  "print_test_finished r stats result =
     (if code result \<noteq> 0 then
        emit [PrinterUpdate False, PrintLines (out result), PrintLines (err result)] r
      else if \<not> args_quiet r then
        emit ([PrinterUpdate (args_verbose r = 0)]
              @ (if args_verbose r > 1 then [PrintLines (out result), PrintLines (err result)]
                 else [])
              @ (if args_verbose r \<noteq> 0 then [PrinterFlush] else [])) r
      else r)"

text \<open>Modelled from the spec: \<^verbatim>\<open>typ.pool\<close> (\<^verbatim>\<open>make_pool\<close> and the pool's \<^verbatim>\<open>send\<close>,
  \<^verbatim>\<open>get\<close>, \<^verbatim>\<open>close\<close>, \<^verbatim>\<open>join\<close>) is not among the source files. The spec describes
  message passing (submit a unit, receive a Result), results arriving in completion
  order, which is unspecified. So the pool holds the units submitted and not yet answered;
  \<^verbatim>\<open>get\<close> answers one of them, which one being chosen from outside (\<open>pick\<close>), with the
  Result of the callback \<^verbatim>\<open>_run_one_test\<close> run in the worker's child. With nothing
  submitted \<^verbatim>\<open>get\<close> never answers. The spec does not say what \<^verbatim>\<open>get\<close> does when the
  callback raises; the model hands the exception to the caller.\<close>

record Pool =
  p_size :: int
  p_queue :: "TestInput list"

text \<open>What the outside decides at one \<^verbatim>\<open>get\<close>: which outstanding unit answers, and the
  world, host, ordinal and suite cache of the worker that ran it.\<close>

record Completion =
  pick :: nat
  w_world :: World
  w_host :: Host
  w_num :: nat
  w_loaded :: "string \<rightharpoonup> test_obj list option"

definition make_pool :: "int \<Rightarrow> Pool" where
  "make_pool jobs = \<lparr>p_size = jobs, p_queue = []\<rparr>"

definition pool_send :: "TestInput \<Rightarrow> Pool \<Rightarrow> Pool" where
  "pool_send test_input pool = pool\<lparr>p_queue := p_queue pool @ [test_input]\<rparr>"

text \<open>\<^verbatim>\<open>_Child(parent, loader, test_set)\<close> after \<^verbatim>\<open>_setup_process\<close> in its worker.\<close>

definition worker_child :: "Runner \<Rightarrow> Completion \<Rightarrow> Child" where
  "worker_child r c =
     \<lparr>c_host = w_host c, c_worker_num = w_num c, c_debugger = args_debugger r,
      c_dry_run = args_dry_run r, c_passthrough = args_passthrough r,
      loaded_suites = w_loaded c\<rparr>"

datatype get_outcome = Blocks | GetRaises exn Pool | Got Result Pool

definition pool_get :: "Params \<Rightarrow> Completion \<Rightarrow> Runner \<Rightarrow> Pool \<Rightarrow> get_outcome" where
  "pool_get P c r pool =
     (let q = p_queue pool in
      if q = [] then Blocks
      else
        (let i = pick c mod length q;
             pool' = pool\<lparr>p_queue := take i q @ drop (Suc i) q\<rparr>
         in case fst (run_one_test P (w_world c) (worker_child r c) (q ! i)) of
              Inl e \<Rightarrow> GetRaises e pool'
            | Inr result \<Rightarrow> Got result pool'))"

section \<open>The scheduler\<close>

text \<open>How a call ends: it returns, it raises, or it waits forever.\<close>

datatype status = Returns | Raises exn | Hangs

text \<open>The variables of \<^verbatim>\<open>_run_list\<close> while its loops run.\<close>

record sched =
  s_runner :: Runner
  s_stats :: Stats
  s_results :: "Result list"
  s_test_inputs :: "TestInput list"
  s_running_jobs :: "string set"
  s_pool :: Pool

text \<open>The body of the inner \<^verbatim>\<open>while\<close>, entered with a non-empty \<^verbatim>\<open>test_inputs\<close>.\<close>

definition send_one :: "sched \<Rightarrow> sched" where
  "send_one s =
     (let test_input = hd (s_test_inputs s);
          stats = (s_stats s)\<lparr>st_started := st_started (s_stats s) + 1\<rparr>
      in s\<lparr>s_test_inputs := tl (s_test_inputs s),
           s_stats := stats,
           s_pool := pool_send test_input (s_pool s),
           s_running_jobs := insert (ti_name test_input) (s_running_jobs s),
           s_runner := print_test_started (emit [PoolSend (ti_name test_input)] (s_runner s))
                         stats test_input\<rparr>)"

text \<open>The inner loop: \<^verbatim>\<open>while test_inputs and (len(running_jobs) < self.args.jobs)\<close>.\<close>

function dispatch :: "sched \<Rightarrow> sched" where
  "dispatch s =
     (if s_test_inputs s \<noteq> [] \<and> int (card (s_running_jobs s)) < args_jobs (s_runner s)
      then dispatch (send_one s) else s)"
  by pat_completeness auto
termination
  by (relation "measure (\<lambda>s. length (s_test_inputs s))") (auto simp: send_one_def Let_def)

declare dispatch.simps [simp del]

text \<open>\<^verbatim>\<open>pool.get()\<close> has answered: the event, and one more result received.\<close>

definition got :: "string \<Rightarrow> sched \<Rightarrow> sched" where
  "got n s =
     s\<lparr>s_runner := (emit [PoolGet n] (s_runner s))\<lparr>r_gets := Suc (r_gets (s_runner s))\<rparr>\<rparr>"

text \<open>The four statements after \<^verbatim>\<open>pool.get()\<close>.\<close>

definition receive :: "Result \<Rightarrow> Pool \<Rightarrow> sched \<Rightarrow> sched" where
  "receive result pool' s =
     (let stats = (s_stats s)\<lparr>st_finished := st_finished (s_stats s) + 1\<rparr>
      in s\<lparr>s_pool := pool',
           s_running_jobs := s_running_jobs s - {name result},
           s_results := s_results s @ [result],
           s_stats := stats,
           s_runner := print_test_finished (s_runner s) stats result\<rparr>)"

lemma dispatch_measure:
  "length (s_test_inputs (dispatch s)) + length (p_queue (s_pool (dispatch s)))
     = length (s_test_inputs s) + length (p_queue (s_pool s))"
proof (induction s rule: dispatch.induct)
  case (1 s)
  show ?case
  proof (cases "s_test_inputs s \<noteq> [] \<and> int (card (s_running_jobs s)) < args_jobs (s_runner s)")
    case True
    then have "dispatch s = dispatch (send_one s)" by (simp add: dispatch.simps [of s])
    with "1.IH" [OF True] True show ?thesis
      by (simp add: send_one_def Let_def pool_send_def)
  next
    case False
    then show ?thesis by (auto simp: dispatch.simps [of s])
  qed
qed

lemma pool_get_Got_queue:
  "pool_get P c r pool = Got result pool' \<Longrightarrow> length (p_queue pool') < length (p_queue pool)"
proof -
  assume g: "pool_get P c r pool = Got result pool'"
  then have ne: "p_queue pool \<noteq> []" by (auto simp: pool_get_def Let_def split: if_splits)
  then have "pick c mod length (p_queue pool) < length (p_queue pool)" by simp
  then have "length (take (pick c mod length (p_queue pool)) (p_queue pool)
               @ drop (Suc (pick c mod length (p_queue pool))) (p_queue pool)) < length (p_queue pool)"
    by simp
  with g ne show ?thesis
    by (auto simp: pool_get_def Let_def simp del: length_append length_take length_drop
             split: if_splits sum.splits)
qed

text \<open>The outer loop: \<^verbatim>\<open>while test_inputs or running_jobs\<close>. \<^verbatim>\<open>running_jobs.remove\<close>
  raises \<^verbatim>\<open>KeyError\<close> on a name that is not in the set.\<close>

function run_list_loop :: "Params \<Rightarrow> (nat \<Rightarrow> Completion) \<Rightarrow> sched \<Rightarrow> status \<times> sched" where
  "run_list_loop P env s =
     (if s_test_inputs s \<noteq> [] \<or> s_running_jobs s \<noteq> {} then
        (let s1 = dispatch s in
         case pool_get P (env (r_gets (s_runner s1))) (s_runner s1) (s_pool s1) of
           Blocks \<Rightarrow> (Hangs, s1)
         | GetRaises e pool' \<Rightarrow> (Raises e, s1\<lparr>s_pool := pool'\<rparr>)
         | Got result pool' \<Rightarrow>
             (let s2 = got (name result) s1 in
              if name result \<notin> s_running_jobs s2
              then (Raises (KeyError (name result)), s2\<lparr>s_pool := pool'\<rparr>)
              else run_list_loop P env (receive result pool' s2)))
      else (Returns, s))"
  by pat_completeness auto
termination
  apply (relation "measure (\<lambda>(P, env, s). length (s_test_inputs s) + length (p_queue (s_pool s)))")
   apply simp
  subgoal for P env s x x31 x32 xa
    using dispatch_measure [of s]
      pool_get_Got_queue [of P "env (r_gets (s_runner (dispatch s)))" "s_runner (dispatch s)"
        "s_pool (dispatch s)" x31 x32]
    by (simp add: receive_def got_def Let_def)
  done

declare run_list_loop.simps [simp del]

text \<open>\<^verbatim>\<open>_run_list\<close>: the list is emptied in place, so what is left of it is returned
  with the runner, the stats and the results. \<^verbatim>\<open>pool.close()\<close> is reached when the loop
  returns, \<^verbatim>\<open>pool.join()\<close> (in \<^verbatim>\<open>finally\<close>) also when it raises.\<close>

definition run_list ::
  "Params \<Rightarrow> (nat \<Rightarrow> Completion) \<Rightarrow> Runner \<Rightarrow> Stats \<Rightarrow> Result list \<Rightarrow> TestInput list \<Rightarrow> int \<Rightarrow>
   status \<times> Runner \<times> Stats \<times> Result list \<times> TestInput list" where
  "run_list P env r stats results test_inputs jobs =
     (let jobs' = min (int (length test_inputs)) jobs in
      if jobs' = 0 then (Returns, r, stats, results, test_inputs)
      else
        (case run_list_loop P env
                \<lparr>s_runner = emit [MakePool jobs'] r, s_stats = stats, s_results = results,
                 s_test_inputs = test_inputs, s_running_jobs = {}, s_pool = make_pool jobs'\<rparr> of
           (Returns, s) \<Rightarrow>
             (Returns, emit [PoolClose, PoolJoin] (s_runner s), s_stats s, s_results s,
              s_test_inputs s)
         | (Raises e, s) \<Rightarrow>
             (Raises e, emit [PoolJoin] (s_runner s), s_stats s, s_results s, s_test_inputs s)
         | (Hangs, s) \<Rightarrow> (Hangs, s_runner s, s_stats s, s_results s, s_test_inputs s)))"

section \<open>Work sets and one pass over a work set\<close>

text \<open>\<^verbatim>\<open>TestSet\<close>: the three buckets. (The context and the two hooks are handed to the
  workers unread.) Every bucket member is a \<open>TestInput\<close>, as after \<^verbatim>\<open>promote\<close>.\<close>

record TestSet =
  parallel_tests :: "TestInput list"
  isolated_tests :: "TestInput list"
  tests_to_skip :: "TestInput list"

text \<open>\<^verbatim>\<open>_sort_inputs\<close>: \<^verbatim>\<open>sorted\<close> is stable, as \<open>sort_key\<close> is.\<close>

definition sort_inputs :: "TestInput list \<Rightarrow> TestInput list" where
  "sort_inputs inps = sort_key ti_name inps"

definition make_test_set :: "TestInput list \<Rightarrow> TestInput list \<Rightarrow> TestInput list \<Rightarrow> TestSet" where
  "make_test_set pts its sts =
     \<lparr>parallel_tests = sort_inputs pts, isolated_tests = sort_inputs its,
      tests_to_skip = sort_inputs sts\<rparr>"

text \<open>\<^verbatim>\<open>_skip_tests\<close>: no pool is involved; each Result is built in the parent.\<close>

fun skip_tests ::
  "Params \<Rightarrow> Runner \<Rightarrow> Stats \<Rightarrow> Result list \<Rightarrow> TestInput list \<Rightarrow> Runner \<times> Stats \<times> Result list" where
  "skip_tests P r stats results [] = (r, stats, results)"
| "skip_tests P r stats results (test_input # rest) =
     (let (last', h1) = host_time (r_host r);
          stats1 = stats\<lparr>st_started := st_started stats + 1\<rparr>;
          r1 = print_test_started (r\<lparr>r_host := h1\<rparr>) stats1 test_input;
          (now, h2) = host_time (r_host r1);
          result = Result_init (dflt P) (ti_name test_input) Skip last' (now - last') 0
                     (Some [Skip]) None None None (Some (ti_msg test_input)) None None;
          stats2 = stats1\<lparr>st_finished := st_finished stats1 + 1\<rparr>;
          r2 = print_test_finished (r1\<lparr>r_host := h2\<rparr>) stats2 result
      in skip_tests P r2 stats2 (results @ [result]) rest)"

text \<open>\<^verbatim>\<open>_run_one_set\<close>: the skip bucket, then the parallel bucket with
  \<^verbatim>\<open>self.args.jobs\<close>, then the isolated bucket with 1.\<close>

definition run_one_set ::
  "Params \<Rightarrow> (nat \<Rightarrow> Completion) \<Rightarrow> Runner \<Rightarrow> Stats \<Rightarrow> Result list \<Rightarrow> TestSet \<Rightarrow>
   status \<times> Runner \<times> Stats \<times> Result list \<times> TestSet" where
  "run_one_set P env r stats results test_set =
     (let stats0 = stats\<lparr>st_total := length (parallel_tests test_set)
                       + length (isolated_tests test_set) + length (tests_to_skip test_set)\<rparr>
      in case skip_tests P r stats0 results (tests_to_skip test_set) of
        (r1, stats1, results1) \<Rightarrow>
          (case run_list P env r1 stats1 results1 (parallel_tests test_set) (args_jobs r1) of
             (Returns, r2, stats2, results2, par') \<Rightarrow>
               (case run_list P env r2 stats2 results2 (isolated_tests test_set) 1 of
                  (st, r3, stats3, results3, iso') \<Rightarrow>
                    (st, r3, stats3, results3,
                     test_set\<lparr>parallel_tests := par', isolated_tests := iso'\<rparr>))
           | (st, r2, stats2, results2, par') \<Rightarrow>
               (st, r2, stats2, results2, test_set\<lparr>parallel_tests := par'\<rparr>)))"

section \<open>Classification\<close>

text \<open>\<^verbatim>\<open>_matches\<close>; \<^verbatim>\<open>fnmatch.fnmatch\<close> is a parameter.\<close>

definition matches :: "(string \<Rightarrow> string \<Rightarrow> bool) \<Rightarrow> string \<Rightarrow> string list \<Rightarrow> bool" where
  "matches fnmatch nm globs = list_ex (fnmatch nm) globs"

text \<open>\<^verbatim>\<open>_default_classifier(args)\<close>, applied to a work set and the \<^verbatim>\<open>id()\<close> of a test
  case.\<close>

definition default_classifier ::
  "(string \<Rightarrow> string \<Rightarrow> bool) \<Rightarrow> string list \<Rightarrow> string list \<Rightarrow> TestSet \<Rightarrow> string \<Rightarrow> TestSet" where
  "default_classifier fnmatch args_skip args_isolate test_set nm =
     (if matches fnmatch nm args_skip then
        test_set\<lparr>tests_to_skip := tests_to_skip test_set @ [TestInput_init nm ''skipped by request'']\<rparr>
      else if matches fnmatch nm args_isolate then
        test_set\<lparr>isolated_tests := isolated_tests test_set @ [TestInput_init nm []]\<rparr>
      else
        test_set\<lparr>parallel_tests := parallel_tests test_set @ [TestInput_init nm []]\<rparr>)"

text \<open>What \<^verbatim>\<open>_test_adder\<close> reads of a test case that reports a failed load besides its id:
  its \<^verbatim>\<open>_testMethodName\<close> and what calling that method raises, if anything.\<close>

record Failed_loads =
  testMethodName :: "string \<Rightarrow> string"
  call_method :: "string \<Rightarrow> exn option"

text \<open>\<^verbatim>\<open>add_tests\<close> of \<^verbatim>\<open>_test_adder(test_set, classifier)\<close>.\<close>

fun add_tests ::
    "(TestSet \<Rightarrow> string \<Rightarrow> TestSet) \<Rightarrow> Failed_loads \<Rightarrow> TestSet \<Rightarrow> test_obj \<Rightarrow> exn + TestSet"
  and add_tests_each ::
    "(TestSet \<Rightarrow> string \<Rightarrow> TestSet) \<Rightarrow> Failed_loads \<Rightarrow> TestSet \<Rightarrow> test_obj list \<Rightarrow> exn + TestSet"
  where
  "add_tests classifier F test_set (TestSuite els) = add_tests_each classifier F test_set els"
| "add_tests classifier F test_set (TestCase i) =
     (if prefix ''unittest.loader.LoadTestsFailure'' i
         \<or> prefix ''unittest.loader.ModuleImportFailure'' i then
        (case call_method F i of
           None \<Rightarrow> Inr test_set
         | Some e \<Rightarrow>
             if is_Exception e then
               (if sublist ''LoadTests'' i
                then Inl (AddTestsError (testMethodName F i @ ''.load_tests() failed: '' @ str_exn e))
                else Inl (AddTestsError (str_exn e)))
             else Inl e)
      else Inr (classifier test_set i))"
| "add_tests_each classifier F test_set [] = Inr test_set"
| "add_tests_each classifier F test_set (el # els) =
     (case add_tests classifier F test_set el of
        Inl e \<Rightarrow> Inl e
      | Inr test_set' \<Rightarrow> add_tests_each classifier F test_set' els)"

text \<open>\<^verbatim>\<open>find_tests\<close>. The host and loader calls of \<^verbatim>\<open>_add_tests_to_set\<close> are given by
  what they produce, in call order: a suite, or an exception. The exception classes the
  source catches, and \<^verbatim>\<open>_AddTestsError\<close>, end discovery with \<^verbatim>\<open>(1, None)\<close>;
  anything else leaves the function.\<close>

fun caught_by_find_tests :: "exn \<Rightarrow> bool" where
  "caught_by_find_tests (AttributeError _) = True"
| "caught_by_find_tests (ImportError _) = True"
| "caught_by_find_tests (SyntaxError _) = True"
| "caught_by_find_tests (AddTestsError _) = True"
| "caught_by_find_tests _ = False"

fun add_loaded ::
  "(TestSet \<Rightarrow> string \<Rightarrow> TestSet) \<Rightarrow> Failed_loads \<Rightarrow> TestSet \<Rightarrow> (exn + test_obj) list \<Rightarrow>
   exn + TestSet" where
  "add_loaded classifier F test_set [] = Inr test_set"
| "add_loaded classifier F test_set (Inl e # rest) = Inl e"
| "add_loaded classifier F test_set (Inr obj # rest) =
     (case add_tests classifier F test_set obj of
        Inl e \<Rightarrow> Inl e
      | Inr test_set' \<Rightarrow> add_loaded classifier F test_set' rest)"

definition find_tests ::
  "(TestSet \<Rightarrow> string \<Rightarrow> TestSet) \<Rightarrow> Failed_loads \<Rightarrow> (exn + test_obj) list \<Rightarrow>
   exn + int \<times> TestSet option" where
  "find_tests classifier F loaded =
     (case add_loaded classifier F (make_test_set [] [] []) loaded of
        Inl e \<Rightarrow> if caught_by_find_tests e then Inr (1, None) else Inl e
      | Inr test_set \<Rightarrow>
          Inr (0, Some (test_set\<lparr>parallel_tests := sort_inputs (parallel_tests test_set),
                                isolated_tests := sort_inputs (isolated_tests test_set),
                                tests_to_skip := sort_inputs (tests_to_skip test_set)\<rparr>)))"

section \<open>Result queries and the full-results document\<close>

text \<open>The actual outcome of the latest Result of a name in the collection.\<close>

definition latest_actual :: "Result list \<Rightarrow> string \<Rightarrow> ResultType option" where
  "latest_actual results nm =
     (case filter (\<lambda>r. name r = nm) results of [] \<Rightarrow> None | r # rs \<Rightarrow> Some (actual (last (r # rs))))"

text \<open>Modelled from the spec: \<^verbatim>\<open>json_results.failed_test_names\<close> is not among the source
  files. The spec: the names whose latest actual outcome is Failure.\<close>

definition failed_test_names :: "Result list \<Rightarrow> string set" where
  "failed_test_names results =
     set (filter (\<lambda>nm. latest_actual results nm = Some Failure) (map name results))"

text \<open>\<^verbatim>\<open>key, value\<close> of an entry \<^verbatim>\<open>key=value\<close>: the text before the first \<^verbatim>\<open>=\<close> and
  the text after it.\<close>

definition key_value :: "string \<Rightarrow> string \<times> string" where
  "key_value m = (takeWhile (\<lambda>c. c \<noteq> CHR ''='') m, tl (dropWhile (\<lambda>c. c \<noteq> CHR ''='') m))"

text \<open>Modelled from the spec: \<^verbatim>\<open>json_results.make_full_results\<close> and
  \<^verbatim>\<open>json_results.exit_code_from_full_results\<close> are not among the source files. Of the
  document the spec describes, the model keeps what the spec determines from the arguments:
  \<^verbatim>\<open>num_failures_by_type\<close> (outcome to count, a name counting for its latest outcome),
  \<^verbatim>\<open>seconds_since_epoch\<close>, the metadata map and the names of the tests tree. The exit
  code is 0 if the document counts zero failures, else 1.\<close>

record full_results =
  num_failures_by_type :: "ResultType \<Rightarrow> nat"
  seconds_since_epoch :: int
  fr_metadata :: "string \<rightharpoonup> string"
  fr_tests :: "string list"

definition make_full_results ::
  "string list \<Rightarrow> int \<Rightarrow> string list \<Rightarrow> Result list \<Rightarrow> full_results" where
  "make_full_results metadata secs all_test_names results =
     \<lparr>num_failures_by_type =
        (\<lambda>t. card (set (filter (\<lambda>nm. latest_actual results nm = Some t) (map name results)))),
      seconds_since_epoch = secs,
      fr_metadata = map_of (rev (map key_value metadata)),
      fr_tests = all_test_names\<rparr>"

definition exit_code_from_full_results :: "full_results \<Rightarrow> int" where
  "exit_code_from_full_results fr = (if num_failures_by_type fr Failure = 0 then 0 else 1)"

text \<open>\<^verbatim>\<open>int(x)\<close> of a float: truncation towards zero.\<close>

definition py_int :: "real \<Rightarrow> int" where
  "py_int x = (if 0 \<le> x then \<lfloor>x\<rfloor> else \<lceil>x\<rceil>)"

section \<open>Running and retrying\<close>

text \<open>The variables of the retry loop of \<^verbatim>\<open>_run_tests\<close>: the runner, the overall result
  collection, \<^verbatim>\<open>failed_tests\<close> and the counter \<^verbatim>\<open>retry_limit\<close>.\<close>

record retry =
  rt_runner :: Runner
  rt_results :: "Result list"
  rt_failed :: "string set"
  rt_limit :: int

text \<open>The block under \<^verbatim>\<open>if retry_limit == self.args.retry_limit\<close>.\<close>

definition first_retry_effects :: "Runner \<Rightarrow> Runner" where
  "first_retry_effects r =
     (emit [PrinterFlush, SetArgsOverwrite False, SetShouldOverwrite False,
            SetArgsVerbose (min (args_verbose r) 1)] r)
       \<lparr>args_overwrite := False, should_overwrite := False,
        args_verbose := min (args_verbose r) 1\<rparr>"

text \<open>One execution of the loop body. The failed names are a set; \<^verbatim>\<open>_make_test_set\<close>
  sorts the inputs made from them, so their list is the sorted list of the set. When the
  pass does not return, the statements after it are not reached.\<close>

definition retry_pass :: "Params \<Rightarrow> (nat \<Rightarrow> Completion) \<Rightarrow> retry \<Rightarrow> status \<times> retry" where
  "retry_pass P env t =
     (let r0 = rt_runner t;
          r1 = (if rt_limit t = args_retry_limit r0 then first_retry_effects r0 else r0);
          r2 = emit [PrintLine [],
                     PrintRetrying (args_retry_limit r1 - rt_limit t + 1) (args_retry_limit r1),
                     PrintLine []] r1;
          stats = \<lparr>st_total = card (rt_failed t), st_started = 0, st_finished = 0,
                   st_started_time = fst (host_time (r_host r2))\<rparr>;
          tests_to_retry =
            make_test_set []
              (map (\<lambda>nm. TestInput_init nm []) (sorted_list_of_set (rt_failed t))) []
      in case run_one_set P env r2 stats [] tests_to_retry of
           (Returns, r3, stats', retry_results, ts') \<Rightarrow>
             (Returns, t\<lparr>rt_runner := r3, rt_results := rt_results t @ retry_results,
                         rt_failed := failed_test_names retry_results,
                         rt_limit := rt_limit t - 1\<rparr>)
         | (st, r3, stats', retry_results, ts') \<Rightarrow> (st, t\<lparr>rt_runner := r3\<rparr>))"

text \<open>\<^verbatim>\<open>while retry_limit and failed_tests\<close>. The counter is an integer that only
  decreases, so a negative limit never reaches zero and the loop may run forever:
  \<open>None\<close> is no return.\<close>

partial_function (option) retry_loop ::
  "Params \<Rightarrow> (nat \<Rightarrow> Completion) \<Rightarrow> retry \<Rightarrow> (status \<times> retry) option" where
  "retry_loop P env t =
     (if rt_limit t \<noteq> 0 \<and> rt_failed t \<noteq> {} then
        (case retry_pass P env t of
           (Returns, t') \<Rightarrow> retry_loop P env t'
         | (st, t') \<Rightarrow> Some (st, t'))
      else Some (Returns, t))"

declare retry_loop.simps [code]

text \<open>\<^verbatim>\<open>_run_tests\<close>: how it ends, the exit code and the document when it returns, the
  runner and the result collection.\<close>

definition run_tests ::
  "Params \<Rightarrow> (nat \<Rightarrow> Completion) \<Rightarrow> Runner \<Rightarrow> Stats \<Rightarrow> Result list \<Rightarrow> TestSet \<Rightarrow>
   (status \<times> (int \<times> full_results option) option \<times> Runner \<times> Result list) option" where
  "run_tests P env r stats result_set test_set =
     (if parallel_tests test_set = [] \<and> isolated_tests test_set = [] then
        Some (Returns, Some (1, None), emit [PrintLine ''No tests to run.''] r, result_set)
      else
        (let all_tests = map ti_name (sort_inputs (parallel_tests test_set
                           @ isolated_tests test_set @ tests_to_skip test_set))
         in if args_list_only r then
              Some (Returns, Some (0, None), emit [PrintLine (join [CHR 0x0A] all_tests)] r,
                    result_set)
            else
              (case run_one_set P env r stats result_set test_set of
                 (Returns, r1, stats1, results1, ts1) \<Rightarrow>
                   (case retry_loop P env
                           \<lparr>rt_runner = r1, rt_results = results1,
                            rt_failed = failed_test_names results1,
                            rt_limit = args_retry_limit r1\<rparr> of
                      None \<Rightarrow> None
                    | Some (Returns, t) \<Rightarrow>
                        (let r2 = (if rt_limit t \<noteq> args_retry_limit (rt_runner t)
                                   then emit [PrintLine []] (rt_runner t) else rt_runner t);
                             (now, h') = host_time (r_host r2);
                             full = make_full_results (args_metadata r2) (py_int now)
                                      all_tests (rt_results t)
                         in Some (Returns, Some (exit_code_from_full_results full, Some full),
                                  r2\<lparr>r_host := h'\<rparr>, rt_results t))
                    | Some (st, t) \<Rightarrow> Some (st, None, rt_runner t, rt_results t))
               | (st, r1, stats1, results1, ts1) \<Rightarrow> Some (st, None, r1, results1))))"

section \<open>Artifacts and the exit code\<close>

record trace_event =
  te_name :: string
  te_ts :: int
  te_dur :: int
  te_pid :: nat
  te_tid :: nat
  te_args :: "Result option"

record trace =
  traceEvents :: "trace_event list"
  otherData :: "string \<rightharpoonup> string"

text \<open>The loop \<^verbatim>\<open>for m in self.args.metadata: k, v = m.split('='); ...\<close>. Unpacking into
  two names raises \<^verbatim>\<open>ValueError\<close> unless the split has exactly two pieces.\<close>

fun other_data :: "string list \<Rightarrow> (string \<rightharpoonup> string) \<Rightarrow> exn + (string \<rightharpoonup> string)" where
  "other_data [] d = Inr d"
| "other_data (m # ms) d =
     (case split_on CHR ''='' m of
        [k, v] \<Rightarrow> other_data ms (d(k \<mapsto> v))
      | [k] \<Rightarrow> Inl (ValueError ''need more than 1 value to unpack'')
      | _ \<Rightarrow> Inl (ValueError ''too many values to unpack''))"

definition result_event :: "Stats \<Rightarrow> Result \<Rightarrow> trace_event" where
  "result_event stats result =
     \<lparr>te_name = name result,
      te_ts = py_int ((started result - st_started_time stats) * 1000000),
      te_dur = py_int (took result * 1000000),
      te_pid = pid result, te_tid = worker result, te_args = Some result\<rparr>"

text \<open>\<^verbatim>\<open>_trace_from_results\<close>.\<close>

definition trace_from_results :: "Runner \<Rightarrow> Stats \<Rightarrow> Result list \<Rightarrow> exn + trace" where
  "trace_from_results r stats results =
     (case other_data (args_metadata r) Map.empty of
        Inl e \<Rightarrow> Inl e
      | Inr d \<Rightarrow> Inr \<lparr>traceEvents = map (result_event stats) results, otherData = d\<rparr>)"

text \<open>\<^verbatim>\<open>_add_trace_event\<close>.\<close>

definition add_trace_event :: "Runner \<Rightarrow> Stats \<Rightarrow> trace \<Rightarrow> string \<Rightarrow> real \<Rightarrow> real \<Rightarrow> trace" where
  "add_trace_event r stats tr nm start end' =
     tr\<lparr>traceEvents := traceEvents tr @
          [\<lparr>te_name = nm, te_ts = py_int ((start - st_started_time stats) * 1000000),
            te_dur = py_int ((end' - start) * 1000000), te_pid = h_pid (r_host r), te_tid = 0,
            te_args = None\<rparr>]\<rparr>"

text \<open>\<^verbatim>\<open>upload_results\<close>: what \<^verbatim>\<open>h.fetch\<close> raises, if anything, is a parameter. An
  \<^verbatim>\<open>Exception\<close> is caught, reported and turned into 1.\<close>

definition upload_results :: "exn option \<Rightarrow> Runner \<Rightarrow> full_results \<Rightarrow> (exn + int) \<times> Runner" where
  "upload_results fetch_raises r full =
     (if \<not> truthy (args_test_results_server r) then (Inr 0, r)
      else
        (let server = the (args_test_results_server r) in
         case fetch_raises of
           None \<Rightarrow> (Inr 0, emit [Fetch server] r)
         | Some e \<Rightarrow>
             if is_Exception e
             then (Inr 1, emit [Fetch server, PrintLine ''Uploading the JSON results raised''] r)
             else (Inl e, emit [Fetch server] r)))"

text \<open>\<^verbatim>\<open>_summarize\<close>, \<^verbatim>\<open>write_results\<close> and \<^verbatim>\<open>write_trace\<close>.\<close>

definition summarize :: "Runner \<Rightarrow> full_results \<Rightarrow> Runner" where
  "summarize r full =
     (if args_quiet r \<and> num_failures_by_type full Failure = 0 then r
      else emit [PrinterUpdate False, PrintLine []] r)"

definition write_results :: "Runner \<Rightarrow> Runner" where
  "write_results r =
     (if truthy (args_write_full_results_to r)
      then emit [WriteTextFile (the (args_write_full_results_to r))] r else r)"

definition write_trace :: "Runner \<Rightarrow> Runner" where
  "write_trace r =
     (if truthy (args_write_trace_to r)
      then emit [WriteTextFile (the (args_write_trace_to r))] r else r)"

text \<open>What \<^verbatim>\<open>run\<close> returns: \<^verbatim>\<open>(ret, full_results, trace)\<close>.\<close>

type_synonym run_value = "int \<times> full_results option \<times> trace option"

text \<open>\<^verbatim>\<open>Runner.run\<close>, from the point where discovery has answered: \<open>found\<close> is the
  work set the caller passed or \<^verbatim>\<open>find_tests\<close> produced, or \<open>None\<close> when
  \<^verbatim>\<open>find_tests\<close> returned \<^verbatim>\<open>(1, None)\<close>. Coverage is off (its branches are marked
  as not covered in the source), so \<^verbatim>\<open>_set_up_runner\<close> returns 0; the fresh
  \<^verbatim>\<open>Stats\<close> it creates is the argument \<open>stats\<close>.\<close>

definition run ::
  "Params \<Rightarrow> (nat \<Rightarrow> Completion) \<Rightarrow> exn option \<Rightarrow> Runner \<Rightarrow> Stats \<Rightarrow> TestSet option \<Rightarrow>
   (status \<times> run_value option \<times> Runner) option" where
  "run P env fetch_raises r stats found =
     (if args_version r then Some (Returns, Some (0, None, None), emit [PrintLine ''VERSION''] r)
      else
        (let (find_start, h1) = host_time (r_host r);
             (find_end, h2) = host_time h1;
             r0 = r\<lparr>r_host := h2\<rparr>
         in case (case found of
                    None \<Rightarrow> Some (Returns, Some (1, None), r0, [])
                  | Some test_set \<Rightarrow> run_tests P env r0 stats [] test_set) of
              None \<Rightarrow> None
            | Some (Returns, Some (ret, full_results), r1, result_set) \<Rightarrow>
                (let (test_end, h3) = host_time (r_host r1);
                     r2 = r1\<lparr>r_host := h3\<rparr>
                 in case trace_from_results r2 stats result_set of
                      Inl e \<Rightarrow> Some (Raises e, None, r2)
                    | Inr tr \<Rightarrow>
                        (case full_results of
                           None \<Rightarrow> Some (Returns, Some (ret, None, Some tr), r2)
                         | Some full \<Rightarrow>
                             (case upload_results fetch_raises
                                     (write_results (summarize r2 full)) full of
                                (Inl e, r3) \<Rightarrow> Some (Raises e, None, r3)
                              | (Inr upload_ret, r3) \<Rightarrow>
                                  (let ret' = (if ret = 0 then upload_ret else ret);
                                       (reporting_end, h4) = host_time (r_host r3);
                                       r4 = r3\<lparr>r_host := h4\<rparr>;
                                       tr1 = add_trace_event r4 stats tr ''run'' find_start reporting_end;
                                       tr2 = add_trace_event r4 stats tr1 ''discovery'' find_start find_end;
                                       tr3 = add_trace_event r4 stats tr2 ''testing'' find_end test_end;
                                       tr4 = add_trace_event r4 stats tr3 ''reporting'' test_end reporting_end
                                   in Some (Returns, Some (ret', Some full, Some tr4),
                                            write_trace r4)))))
            | Some (st, v, r1, result_set) \<Rightarrow> Some (st, None, r1)))"

section \<open>Configuration\<close>

text \<open>The namespace \<^verbatim>\<open>argparse\<close> hands to \<^verbatim>\<open>ArgumentParser.parse_args\<close>, with the
  fields that method reads or writes.\<close>

record rargs =
  ra_metadata :: "string list"
  ra_test_results_server :: "string option"
  ra_builder_name :: "string option"
  ra_master_name :: "string option"
  ra_test_type :: "string option"
  ra_suffixes :: "string list"
  ra_coverage_omit :: "string list"
  ra_debugger :: bool
  ra_coverage :: bool
  ra_jobs :: int
  ra_passthrough :: bool
  ra_overwrite :: "bool option"
  ra_verbose :: int

definition DEFAULT_COVERAGE_OMIT :: "string list" where
  "DEFAULT_COVERAGE_OMIT = [''*/typ/*'', ''*/site-packages/*'']"

definition DEFAULT_SUFFIXES :: "string list" where
  "DEFAULT_SUFFIXES = [''*_test.py'', ''*_unittest.py'']"

text \<open>\<^verbatim>\<open>for val in rargs.metadata: if '=' not in val: ... self.exit_status = 2\<close>.\<close>

fun check_metadata :: "string list \<Rightarrow> int option \<Rightarrow> int option" where
  "check_metadata [] st = st"
| "check_metadata (val # rest) st =
     check_metadata rest (if CHR ''='' \<notin> set val then Some 2 else st)"

text \<open>\<^verbatim>\<open>ArgumentParser.parse_args\<close> once \<^verbatim>\<open>argparse\<close> has produced a namespace (when it
  bails out instead, the method returns \<^verbatim>\<open>None\<close> with the exit status \<^verbatim>\<open>exit\<close> has
  stored): the parser's \<^verbatim>\<open>exit_status\<close>, which starts as \<^verbatim>\<open>None\<close>, and the namespace
  as returned.\<close>

definition parse_args :: "py_version \<Rightarrow> bool \<Rightarrow> rargs \<Rightarrow> int option \<times> rargs" where
  "parse_args v isatty ra =
     (let st1 = check_metadata (ra_metadata ra) None;
          st2 = (if truthy (ra_test_results_server ra)
                 then (let sa = (if truthy (ra_builder_name ra) then st1 else Some 2);
                           sb = (if truthy (ra_master_name ra) then sa else Some 2)
                       in if truthy (ra_test_type ra) then sb else Some 2)
                 else st1);
          ra1 = (if ra_suffixes ra = [] then ra\<lparr>ra_suffixes := DEFAULT_SUFFIXES\<rparr> else ra);
          ra2 = (if ra_coverage_omit ra1 = []
                 then ra1\<lparr>ra_coverage_omit := DEFAULT_COVERAGE_OMIT\<rparr> else ra1);
          st3 = (if ra_debugger ra2 \<and> v = Py3 then Some 2 else st2);
          ra3 = (if ra_debugger ra2 then ra2\<lparr>ra_jobs := 1, ra_passthrough := True\<rparr> else ra2);
          ra4 = (if ra_coverage ra3 then ra3\<lparr>ra_jobs := 1\<rparr> else ra3);
          ra5 = (if ra_overwrite ra4 = None
                 then ra4\<lparr>ra_overwrite := Some (isatty \<and> ra_verbose ra4 = 0)\<rparr> else ra4)
      in (st3, ra5))"

text \<open>\<^verbatim>\<open>Runner.parse_args\<close> stores the namespace in \<^verbatim>\<open>self.args\<close>.\<close>

definition store_args :: "rargs \<Rightarrow> Runner \<Rightarrow> Runner" where
  "store_args ra r =
     r\<lparr>args_metadata := ra_metadata ra, args_test_results_server := ra_test_results_server ra,
       args_debugger := ra_debugger ra, args_jobs := ra_jobs ra,
       args_passthrough := ra_passthrough ra,
       args_overwrite := (case ra_overwrite ra of None \<Rightarrow> False | Some b \<Rightarrow> b),
       args_verbose := ra_verbose ra\<rparr>"

text \<open>\<^verbatim>\<open>Runner.main\<close>: a configuration error is returned before anything runs, and a
  \<^verbatim>\<open>KeyboardInterrupt\<close> leaving \<^verbatim>\<open>run\<close> is turned into 130.\<close>

definition main ::
  "Params \<Rightarrow> (nat \<Rightarrow> Completion) \<Rightarrow> exn option \<Rightarrow> bool \<Rightarrow> rargs \<Rightarrow> Runner \<Rightarrow> Stats \<Rightarrow>
   TestSet option \<Rightarrow> (status \<times> int option \<times> Runner) option" where
  "main P env fetch_raises isatty ra r stats found =
     (case parse_args (py P) isatty ra of
        (Some exit_status, ra') \<Rightarrow> Some (Returns, Some exit_status, store_args ra' r)
      | (None, ra') \<Rightarrow>
          (case run P env fetch_raises (store_args ra' r) stats found of
             None \<Rightarrow> None
           | Some (Returns, Some (ret, full, tr), r') \<Rightarrow> Some (Returns, Some ret, r')
           | Some (Raises KeyboardInterrupt, v, r') \<Rightarrow>
               Some (Returns, Some 130, emit [PrintLine ''interrupted, exiting''] r')
           | Some (st, v, r') \<Rightarrow> Some (st, None, r')))"

section \<open>Reading the event log\<close>

text \<open>The events a call added to the log.\<close>

definition new_events :: "Runner \<Rightarrow> Runner \<Rightarrow> event list" where
  "new_events r r' = drop (length (events r)) (events r')"

text \<open>The names submitted to a pool, in order.\<close>

fun sends :: "event list \<Rightarrow> string list" where
  "sends [] = []"
| "sends (PoolSend n # es) = n # sends es"
| "sends (e # es) = sends es"





text \<open>The discipline of the scheduler as an acceptor of logs: a unit is submitted only
  if it is the head of the pending names, fewer than \<open>J\<close> are in flight and the bound \<open>B\<close>
  is kept; a result is awaited only with a unit in flight and with nothing pending or the
  window full.\<close>

fun disciplined :: "int \<Rightarrow> int \<Rightarrow> string list \<Rightarrow> int \<Rightarrow> event list \<Rightarrow> bool" where
  "disciplined J B pending k [] = True"
| "disciplined J B pending k (PoolSend n # es) =
     (case pending of
        [] \<Rightarrow> False
      | p # ps \<Rightarrow> n = p \<and> k < J \<and> k + 1 \<le> B \<and> disciplined J B ps (k + 1) es)"
| "disciplined J B pending k (PoolGet n # es) =
     ((pending = [] \<or> J \<le> k) \<and> 0 < k \<and> disciplined J B pending (k - 1) es)"
| "disciplined J B pending k (e # es) = disciplined J B pending k es"

text \<open>The events that are assignments to \<^verbatim>\<open>args\<close> or to the printer.\<close>

fun is_assignment :: "event \<Rightarrow> bool" where
  "is_assignment (SetArgsOverwrite b) = True"
| "is_assignment (SetShouldOverwrite b) = True"
| "is_assignment (SetArgsVerbose v) = True"
| "is_assignment e = False"

text \<open>The events that touch the pool.\<close>

fun is_pool_event :: "event \<Rightarrow> bool" where
  "is_pool_event (MakePool j) = True"
| "is_pool_event (PoolSend n) = True"
| "is_pool_event (PoolGet n) = True"
| "is_pool_event PoolClose = True"
| "is_pool_event PoolJoin = True"
| "is_pool_event e = False"

text \<open>Two runners that differ at most in the log, the count of results received and the
  host: the configuration is the same.\<close>

definition same_args :: "Runner \<Rightarrow> Runner \<Rightarrow> bool" where
  "same_args r r' = (r' = r\<lparr>events := events r', r_gets := r_gets r', r_host := r_host r'\<rparr>)"







text \<open>What classification by the default classifier maintains of a work set: the units of
  the skip bucket match a skip glob and carry the standard message, the units of the
  other two buckets match no skip glob.\<close>

definition skip_separated :: "(string \<Rightarrow> string \<Rightarrow> bool) \<Rightarrow> string list \<Rightarrow> TestSet \<Rightarrow> bool" where
  "skip_separated fnmatch args_skip ts =
     (list_all (\<lambda>ti. ti_msg ti = ''skipped by request'' \<and> matches fnmatch (ti_name ti) args_skip)
        (tests_to_skip ts) \<and>
      list_all (\<lambda>ti. \<not> matches fnmatch (ti_name ti) args_skip)
        (parallel_tests ts @ isolated_tests ts))"

section \<open>Example configurations\<close>

text \<open>Concrete parameters, hosts, worlds and runners, used to evaluate the model.\<close>

definition dflt0 :: Result_defaults where
  "dflt0 = \<lparr>d_expected = [Pass], d_unexpected = False, d_flaky = False, d_code = 0,
            d_out = [], d_err = [], d_pid = 0\<rparr>"

definition params :: "py_version \<Rightarrow> Params" where
  "params v = \<lparr>py = v, dflt = dflt0\<rparr>"

definition host0 :: Host where
  "host0 = \<lparr>h_pid = 7, h_clock = real, h_ticks = 0, h_capturing = False, h_diverted = False,
            h_out = [], h_err = []\<rparr>"

definition child0 :: Child where
  "child0 = \<lparr>c_host = host0, c_worker_num = 1, c_debugger = False, c_dry_run = False,
             c_passthrough = False, loaded_suites = Map.empty\<rparr>"

definition no_tests :: TestResult where
  "no_tests = \<lparr>failures = [], errors = [], skipped = [], expectedFailures = [],
               unexpectedSuccesses = []\<rparr>"

text \<open>A project whose tests are reachable only through \<^verbatim>\<open>load_tests\<close>: no name loads
  directly; the package \<^verbatim>\<open>a\<close> and its module \<^verbatim>\<open>a.b\<close> import, and each yields a
  flat suite holding \<^verbatim>\<open>a.b.T.t\<close> and \<^verbatim>\<open>a.c\<close>.\<close>

definition world_load_tests :: World where
  "world_load_tests =
     \<lparr>loadTestsFromName = (\<lambda>n. Inl (AttributeError n)),
      import_module = (\<lambda>n. if n = ''a'' \<or> n = ''a.b'' then Inr n else Inl (ImportError n)),
      loadTestsFromModule =
        (\<lambda>m. if m = ''a.b'' then Inr [TestCase ''a.b.T.t'']
              else Inr [TestCase ''a.c'', TestCase ''a.b.T.t'']),
      suite_run = (\<lambda>s. Inr (no_tests, [], [])),
      run_under_debugger = (\<lambda>s. Inr (no_tests, [], []))\<rparr>"

text \<open>A project where every name loads directly: \<^verbatim>\<open>m.T\<close> is a class with two test
  methods, \<^verbatim>\<open>m.Empty\<close> a class with none, any other name one test case that fails when
  its name starts with \<^verbatim>\<open>f\<close> and passes otherwise.\<close>

definition world_direct :: World where
  "world_direct =
     \<lparr>loadTestsFromName =
        (\<lambda>n. if n = ''m.T'' then Inr [TestCase ''m.T.a'', TestCase ''m.T.b'']
              else if n = ''m.Empty'' then Inr []
              else Inr [TestCase n]),
      import_module = (\<lambda>n. Inl (ImportError n)),
      loadTestsFromModule = (\<lambda>m. Inr []),
      suite_run =
        (\<lambda>s. case s of
                [TestCase (c # cs)] \<Rightarrow>
                  if c = CHR ''f'' then Inr (no_tests\<lparr>failures := [(c # cs, ''boom'')]\<rparr>, [], [])
                  else Inr (no_tests, [], [])
              | _ \<Rightarrow> Inr (no_tests, [], [])),
      run_under_debugger = (\<lambda>s. Inr (no_tests, [], []))\<rparr>"

definition runner0 :: Runner where
  "runner0 =
     \<lparr>args_jobs = 2, args_quiet = False, args_overwrite = False, args_verbose = 0,
      args_timing = False, args_retry_limit = 0, args_metadata = [], args_list_only = False,
      args_version = False, args_test_results_server = None,
      args_write_full_results_to = None, args_write_trace_to = None, args_dry_run = False,
      args_debugger = False, args_passthrough = False, should_overwrite = False,
      r_host = host0, r_gets = 0, events = []\<rparr>"

definition stats0 :: Stats where
  "stats0 = \<lparr>st_total = 0, st_started = 0, st_finished = 0, st_started_time = 0\<rparr>"

text \<open>Results arrive in submission order, from a worker in \<open>world_direct\<close>; or the
  latest submitted first.\<close>

definition env_fifo :: "nat \<Rightarrow> Completion" where
  "env_fifo k = \<lparr>pick = 0, w_world = world_direct, w_host = host0, w_num = 1,
                 w_loaded = Map.empty\<rparr>"

definition env_lifo :: "nat \<Rightarrow> Completion" where
  "env_lifo k = \<lparr>pick = 1, w_world = world_direct, w_host = host0, w_num = 1,
                 w_loaded = Map.empty\<rparr>"

definition inputs :: "string list \<Rightarrow> TestInput list" where
  "inputs ns = map (\<lambda>n. TestInput_init n []) ns"

definition rargs0 :: rargs where
  "rargs0 =
     \<lparr>ra_metadata = [], ra_test_results_server = None, ra_builder_name = None,
      ra_master_name = None, ra_test_type = None, ra_suffixes = [], ra_coverage_omit = [],
      ra_debugger = False, ra_coverage = False, ra_jobs = 2, ra_passthrough = False,
      ra_overwrite = None, ra_verbose = 0\<rparr>"

definition no_failed_loads :: Failed_loads where
  "no_failed_loads = \<lparr>testMethodName = id, call_method = (\<lambda>i. None)\<rparr>"

text \<open>A glob matcher for \<^verbatim>\<open>*\<close> and \<^verbatim>\<open>?\<close>, standing in for \<^verbatim>\<open>fnmatch.fnmatch\<close> in
  examples.\<close>

fun glob :: "string \<Rightarrow> string \<Rightarrow> bool" where
  "glob [] [] = True"
| "glob (c # cs) [] = False"
| "glob [] (g # gs) = (g = CHR ''*'' \<and> glob [] gs)"
| "glob (c # cs) (g # gs) =
     (if g = CHR ''*'' then glob (c # cs) gs \<or> glob cs (g # gs)
      else (g = CHR ''?'' \<or> g = c) \<and> glob cs gs)"

(*DEFS*)

section \<open>Verification\<close>

subsection \<open>Frames\<close>

lemma same_args_refl [simp]: "same_args r r"
  by (simp add: same_args_def)

lemma same_args_fields:
  assumes "same_args r r'"
  shows "args_jobs r' = args_jobs r" "args_quiet r' = args_quiet r"
    "args_overwrite r' = args_overwrite r" "args_verbose r' = args_verbose r"
    "args_retry_limit r' = args_retry_limit r" "args_metadata r' = args_metadata r"
    "args_test_results_server r' = args_test_results_server r"
    "args_dry_run r' = args_dry_run r" "args_debugger r' = args_debugger r"
    "args_passthrough r' = args_passthrough r" "should_overwrite r' = should_overwrite r"
    "args_list_only r' = args_list_only r" "args_version r' = args_version r"
    "args_write_full_results_to r' = args_write_full_results_to r"
    "args_write_trace_to r' = args_write_trace_to r" "args_timing r' = args_timing r"
    "Runner.more r' = Runner.more r"
proof -
  from assms have e: "r' = r\<lparr>events := events r', r_gets := r_gets r', r_host := r_host r'\<rparr>"
    by (simp add: same_args_def)
  show "args_jobs r' = args_jobs r" by (subst e) simp
  show "args_quiet r' = args_quiet r" by (subst e) simp
  show "args_overwrite r' = args_overwrite r" by (subst e) simp
  show "args_verbose r' = args_verbose r" by (subst e) simp
  show "args_retry_limit r' = args_retry_limit r" by (subst e) simp
  show "args_metadata r' = args_metadata r" by (subst e) simp
  show "args_test_results_server r' = args_test_results_server r" by (subst e) simp
  show "args_dry_run r' = args_dry_run r" by (subst e) simp
  show "args_debugger r' = args_debugger r" by (subst e) simp
  show "args_passthrough r' = args_passthrough r" by (subst e) simp
  show "should_overwrite r' = should_overwrite r" by (subst e) simp
  show "args_list_only r' = args_list_only r" by (subst e) simp
  show "args_version r' = args_version r" by (subst e) simp
  show "args_write_full_results_to r' = args_write_full_results_to r" by (subst e) simp
  show "args_write_trace_to r' = args_write_trace_to r" by (subst e) simp
  show "args_timing r' = args_timing r" by (subst e) simp
  show "Runner.more r' = Runner.more r" by (subst e) simp
qed

lemma same_args_trans: "same_args a b \<Longrightarrow> same_args b c \<Longrightarrow> same_args a c"
  unfolding same_args_def [of a c]
  by (rule Runner.equality) (simp_all add: same_args_fields)

lemma same_args_emit [simp]: "same_args r (emit es r)"
  by (simp add: same_args_def emit_def)

lemma events_emit [simp]: "events (emit es r) = events r @ es"
  by (simp add: emit_def)

lemma emit_fields [simp]:
  "args_jobs (emit es r) = args_jobs r" "r_gets (emit es r) = r_gets r"
  "r_host (emit es r) = r_host r" "args_quiet (emit es r) = args_quiet r"
  "args_overwrite (emit es r) = args_overwrite r" "args_verbose (emit es r) = args_verbose r"
  "args_retry_limit (emit es r) = args_retry_limit r"
  by (simp_all add: emit_def)

lemma emit_emit [simp]: "emit b (emit a r) = emit (a @ b) r"
  by (simp add: emit_def)

lemma emit_Nil [simp]: "emit [] r = r"
  by (simp add: emit_def)

lemma print_test_started_events:
  "\<exists>es. print_test_started r stats ti = emit es r \<and> (\<forall>e\<in>set es. \<not> is_pool_event e \<and> \<not> is_assignment e)"
proof (cases "\<not> args_quiet r \<and> args_overwrite r")
  case True
  then have "print_test_started r stats ti = emit [PrinterUpdate (args_verbose r = 0)] r"
    by (simp add: print_test_started_def)
  then show ?thesis by fastforce
next
  case False
  then have "print_test_started r stats ti = emit [] r"
    by (auto simp: print_test_started_def)
  then show ?thesis by fastforce
qed

lemma print_test_finished_events:
  "\<exists>es. print_test_finished r stats res = emit es r \<and> (\<forall>e\<in>set es. \<not> is_pool_event e \<and> \<not> is_assignment e)"
proof -
  let ?a = "[PrinterUpdate False, PrintLines (out res), PrintLines (err res)]"
  let ?b = "[PrinterUpdate (args_verbose r = 0)]
              @ (if args_verbose r > 1 then [PrintLines (out res), PrintLines (err res)] else [])
              @ (if args_verbose r \<noteq> 0 then [PrinterFlush] else [])"
  have "print_test_finished r stats res = emit ?a r \<or> print_test_finished r stats res = emit ?b r
      \<or> print_test_finished r stats res = emit [] r"
    by (simp add: print_test_finished_def)
  moreover have "\<forall>e\<in>set ?a. \<not> is_pool_event e \<and> \<not> is_assignment e" by simp
  moreover have "\<forall>e\<in>set ?b. \<not> is_pool_event e \<and> \<not> is_assignment e" by auto
  ultimately show ?thesis by (metis empty_iff empty_set)
qed


subsection \<open>Logs\<close>

lemma sends_append [simp]: "sends (a @ b) = sends a @ sends b"
  by (induction a rule: sends.induct) auto

lemma sends_quiet: "\<forall>e\<in>set es. \<not> is_pool_event e \<Longrightarrow> sends es = []"
  by (induction es rule: sends.induct) auto




subsection \<open>The inner loop\<close>

lemma send_one_props:
  "\<exists>es. s_runner (send_one s) = emit (PoolSend (ti_name (hd (s_test_inputs s))) # es) (s_runner s)
        \<and> (\<forall>e\<in>set es. \<not> is_pool_event e \<and> \<not> is_assignment e)"
  "s_test_inputs (send_one s) = tl (s_test_inputs s)"
  "p_queue (s_pool (send_one s)) = p_queue (s_pool s) @ [hd (s_test_inputs s)]"
  "s_running_jobs (send_one s) = insert (ti_name (hd (s_test_inputs s))) (s_running_jobs s)"
  "s_results (send_one s) = s_results s"
proof -
  let ?ti = "hd (s_test_inputs s)"
  let ?st = "(s_stats s)\<lparr>st_started := st_started (s_stats s) + 1\<rparr>"
  have r: "s_runner (send_one s)
      = print_test_started (emit [PoolSend (ti_name ?ti)] (s_runner s)) ?st ?ti"
    by (simp add: send_one_def Let_def)
  from print_test_started_events [of "emit [PoolSend (ti_name ?ti)] (s_runner s)" ?st ?ti]
  obtain es where "print_test_started (emit [PoolSend (ti_name ?ti)] (s_runner s)) ?st ?ti
      = emit es (emit [PoolSend (ti_name ?ti)] (s_runner s))"
    and q: "\<forall>e\<in>set es. \<not> is_pool_event e \<and> \<not> is_assignment e" by blast
  with r have "s_runner (send_one s) = emit (PoolSend (ti_name ?ti) # es) (s_runner s)"
    by simp
  with q show "\<exists>es. s_runner (send_one s) = emit (PoolSend (ti_name ?ti) # es) (s_runner s)
        \<and> (\<forall>e\<in>set es. \<not> is_pool_event e \<and> \<not> is_assignment e)" by blast
  show "s_test_inputs (send_one s) = tl (s_test_inputs s)"
    by (simp add: send_one_def Let_def)
  show "p_queue (s_pool (send_one s)) = p_queue (s_pool s) @ [?ti]"
    by (simp add: send_one_def Let_def pool_send_def)
  show "s_running_jobs (send_one s) = insert (ti_name ?ti) (s_running_jobs s)"
    by (simp add: send_one_def Let_def)
  show "s_results (send_one s) = s_results s"
    by (simp add: send_one_def Let_def)
qed

lemma dispatch_frame:
  "s_results (dispatch s) = s_results s \<and>
   p_queue (s_pool (dispatch s)) @ s_test_inputs (dispatch s)
     = p_queue (s_pool s) @ s_test_inputs s \<and>
   (\<exists>evs. s_runner (dispatch s) = emit evs (s_runner s) \<and>
          (\<forall>e\<in>set evs. \<not> is_assignment e) \<and>
          map ti_name (s_test_inputs s) = sends evs @ map ti_name (s_test_inputs (dispatch s)))"
proof (induction s rule: dispatch.induct)
  case (1 s)
  show ?case
  proof (cases "s_test_inputs s \<noteq> [] \<and> int (card (s_running_jobs s)) < args_jobs (s_runner s)")
    case False
    then have "dispatch s = s" by (auto simp: dispatch.simps [of s])
    then show ?thesis by (auto intro: exI [of _ "[]"])
  next
    case True
    then have d: "dispatch s = dispatch (send_one s)" by (simp add: dispatch.simps [of s])
    note IH = "1.IH" [OF True]
    from send_one_props(1) [of s] obtain es where
      r: "s_runner (send_one s) = emit (PoolSend (ti_name (hd (s_test_inputs s))) # es) (s_runner s)"
      and q: "\<forall>e\<in>set es. \<not> is_pool_event e \<and> \<not> is_assignment e" by blast
    from IH obtain evs where
      e: "s_runner (dispatch (send_one s)) = emit evs (s_runner (send_one s))"
      and na: "\<forall>e\<in>set evs. \<not> is_assignment e"
      and sn: "map ti_name (s_test_inputs (send_one s))
          = sends evs @ map ti_name (s_test_inputs (dispatch (send_one s)))" by blast
    let ?all = "(PoolSend (ti_name (hd (s_test_inputs s))) # es) @ evs"
    have 1: "s_runner (dispatch s) = emit ?all (s_runner s)"
      using d e r by simp
    have 2: "\<forall>e\<in>set ?all. \<not> is_assignment e" using q na by auto
    have "map ti_name (s_test_inputs s)
        = ti_name (hd (s_test_inputs s)) # map ti_name (tl (s_test_inputs s))"
      using True by (cases "s_test_inputs s") auto
    then have 3: "map ti_name (s_test_inputs s)
        = sends ?all @ map ti_name (s_test_inputs (dispatch s))"
      using sn d q by (simp add: send_one_props(2) sends_quiet)
    have 4: "s_results (dispatch s) = s_results s"
      using IH d by (simp add: send_one_props)
    have 5: "p_queue (s_pool (dispatch s)) @ s_test_inputs (dispatch s)
        = p_queue (s_pool s) @ s_test_inputs s"
      using IH d True by (cases "s_test_inputs s") (auto simp: send_one_props)
    from 1 2 3 4 5 show ?thesis by blast
  qed
qed


subsection \<open>The outer loop\<close>

lemma pool_get_Got:
  assumes "pool_get P c r pool = Got res pool'"
  shows "\<exists>i<length (p_queue pool).
           p_queue pool' = take i (p_queue pool) @ drop (Suc i) (p_queue pool) \<and>
           fst (run_one_test P (w_world c) (worker_child r c) (p_queue pool ! i)) = Inr res"
proof -
  from assms have ne: "p_queue pool \<noteq> []"
    by (auto simp: pool_get_def Let_def split: if_splits)
  let ?i = "pick c mod length (p_queue pool)"
  from ne have "?i < length (p_queue pool)" by simp
  moreover from assms ne have "p_queue pool' = take ?i (p_queue pool) @ drop (Suc ?i) (p_queue pool)"
    "fst (run_one_test P (w_world c) (worker_child r c) (p_queue pool ! ?i)) = Inr res"
    by (auto simp: pool_get_def Let_def split: if_splits sum.splits)
  ultimately show ?thesis by blast
qed

lemma got_props:
  "s_runner (got n s) = (emit [PoolGet n] (s_runner s))\<lparr>r_gets := Suc (r_gets (s_runner s))\<rparr>"
  "s_test_inputs (got n s) = s_test_inputs s" "s_pool (got n s) = s_pool s"
  "s_running_jobs (got n s) = s_running_jobs s" "s_results (got n s) = s_results s"
  by (simp_all add: got_def)

lemma receive_props:
  "s_runner (receive res pool' s)
     = print_test_finished (s_runner s) ((s_stats s)\<lparr>st_finished := st_finished (s_stats s) + 1\<rparr>) res"
  "s_test_inputs (receive res pool' s) = s_test_inputs s" "s_pool (receive res pool' s) = pool'"
  "s_running_jobs (receive res pool' s) = s_running_jobs s - {name res}"
  "s_results (receive res pool' s) = s_results s @ [res]"
  by (simp_all add: receive_def Let_def)

text \<open>One turn of the outer loop that goes on: what the next state is made of.\<close>

lemma turn_runner:
  "\<exists>es. s_runner (receive res pool' (got n s1))
          = (emit (PoolGet n # es) (s_runner s1))\<lparr>r_gets := Suc (r_gets (s_runner s1))\<rparr>
        \<and> (\<forall>e\<in>set es. \<not> is_pool_event e \<and> \<not> is_assignment e)"
proof -
  let ?r = "(emit [PoolGet n] (s_runner s1))\<lparr>r_gets := Suc (r_gets (s_runner s1))\<rparr>"
  from print_test_finished_events [of ?r _ res]
  obtain es where "print_test_finished ?r
      ((s_stats (got n s1))\<lparr>st_finished := st_finished (s_stats (got n s1)) + 1\<rparr>) res = emit es ?r"
    and q: "\<forall>e\<in>set es. \<not> is_pool_event e \<and> \<not> is_assignment e" by blast
  then have "s_runner (receive res pool' (got n s1)) = emit es ?r"
    by (simp add: receive_props got_props)
  also have "\<dots> = (emit (PoolGet n # es) (s_runner s1))\<lparr>r_gets := Suc (r_gets (s_runner s1))\<rparr>"
    by (simp add: emit_def)
  finally show ?thesis using q by blast
qed

lemma same_args_gets [simp]: "same_args r (r'\<lparr>r_gets := g\<rparr>) = same_args r r'"
  by (cases r, cases r') (simp add: same_args_def)

lemma run_list_loop_frame:
  "\<forall>W ch ti res. fst (run_one_test P W ch ti) = Inr res \<longrightarrow> Q ti res \<Longrightarrow>
   run_list_loop P env s = (st, s') \<Longrightarrow>
     (\<exists>evs new. events (s_runner s') = events (s_runner s) @ evs \<and>
        same_args (s_runner s) (s_runner s') \<and>
        r_host (s_runner s') = r_host (s_runner s) \<and>
        (\<forall>e\<in>set evs. \<not> is_assignment e) \<and>
        s_results s' = s_results s @ new \<and>
        (\<forall>res\<in>set new. \<exists>ti\<in>set (p_queue (s_pool s) @ s_test_inputs s). Q ti res) \<and>
        map ti_name (s_test_inputs s) = sends evs @ map ti_name (s_test_inputs s') \<and>
        (st = Returns \<longrightarrow> s_test_inputs s' = []))"
proof (induction P env s arbitrary: st s' rule: run_list_loop.induct)
  case (1 P env s)
  note Q = "1.prems"(1) and run = "1.prems"(2)
  show ?case
  proof (cases "s_test_inputs s \<noteq> [] \<or> s_running_jobs s \<noteq> {}")
    case False
    with run have "st = Returns" "s' = s"
      by (auto simp: run_list_loop.simps [of P env s])
    with False show ?thesis by (auto intro: exI [of _ "[]"])
  next
    case True
    define s1 where "s1 = dispatch s"
    from dispatch_frame [of s] obtain evs1 where
      d1: "s_results s1 = s_results s"
      and d2: "p_queue (s_pool s1) @ s_test_inputs s1 = p_queue (s_pool s) @ s_test_inputs s"
      and d3: "s_runner s1 = emit evs1 (s_runner s)"
      and d4: "\<forall>e\<in>set evs1. \<not> is_assignment e"
      and d5: "map ti_name (s_test_inputs s) = sends evs1 @ map ti_name (s_test_inputs s1)"
      unfolding s1_def by blast
    let ?g = "pool_get P (env (r_gets (s_runner s1))) (s_runner s1) (s_pool s1)"
    have unf: "run_list_loop P env s =
        (case ?g of
           Blocks \<Rightarrow> (Hangs, s1)
         | GetRaises e pool' \<Rightarrow> (Raises e, s1\<lparr>s_pool := pool'\<rparr>)
         | Got result pool' \<Rightarrow>
             (let s2 = got (name result) s1 in
              if name result \<notin> s_running_jobs s2
              then (Raises (KeyError (name result)), s2\<lparr>s_pool := pool'\<rparr>)
              else run_list_loop P env (receive result pool' s2)))"
      using True unfolding s1_def by (simp add: run_list_loop.simps [of P env s] Let_def)
    show ?thesis
    proof (cases ?g)
      case Blocks
      with unf run have "st = Hangs" "s' = s1" by auto
      with d1 d3 d4 d5 show ?thesis by (auto intro: exI [of _ evs1])
    next
      case (GetRaises e pool')
      with unf run have "st = Raises e" "s' = s1\<lparr>s_pool := pool'\<rparr>" by auto
      with d1 d3 d4 d5 show ?thesis by (auto intro: exI [of _ evs1])
    next
      case (Got res pool')
      from pool_get_Got [OF Got] obtain i where i: "i < length (p_queue (s_pool s1))"
        and q': "p_queue pool' = take i (p_queue (s_pool s1)) @ drop (Suc i) (p_queue (s_pool s1))"
        and ro: "fst (run_one_test P (w_world (env (r_gets (s_runner s1))))
                   (worker_child (s_runner s1) (env (r_gets (s_runner s1))))
                   (p_queue (s_pool s1) ! i)) = Inr res" by blast
      let ?ti = "p_queue (s_pool s1) ! i"
      from i have tin: "?ti \<in> set (p_queue (s_pool s) @ s_test_inputs s)"
        by (metis d2 nth_mem set_append UnI1)
      from Q ro have Qres: "Q ?ti res" by blast
      define s2 where "s2 = got (name res) s1"
      show ?thesis
      proof (cases "name res \<notin> s_running_jobs s2")
        case True
        with unf Got run have "st = Raises (KeyError (name res))" "s' = s2\<lparr>s_pool := pool'\<rparr>"
          by (auto simp: s2_def Let_def)
        then have "events (s_runner s') = events (s_runner s) @ (evs1 @ [PoolGet (name res)])"
          "same_args (s_runner s) (s_runner s')" "r_host (s_runner s') = r_host (s_runner s)"
          "s_results s' = s_results s @ []" "s_test_inputs s' = s_test_inputs s1" "st \<noteq> Returns"
          using d1 d3 by (simp_all add: s2_def got_props)
        moreover have "\<forall>e\<in>set (evs1 @ [PoolGet (name res)]). \<not> is_assignment e" using d4 by auto
        moreover have "sends (evs1 @ [PoolGet (name res)]) = sends evs1" by simp
        ultimately show ?thesis using d5 by (metis empty_iff empty_set)
      next
        case False
        define s3 where "s3 = receive res pool' s2"
        from False unf Got run have rec: "run_list_loop P env s3 = (st, s')"
          by (auto simp: s2_def s3_def Let_def)
        note IH = "1.IH" [OF True s1_def Got s2_def False Q rec [unfolded s3_def]]
        from IH obtain evs3 new3 where
          e1: "events (s_runner s') = events (s_runner s3) @ evs3"
          and e2: "same_args (s_runner s3) (s_runner s')"
          and e3: "r_host (s_runner s') = r_host (s_runner s3)"
          and e4: "\<forall>e\<in>set evs3. \<not> is_assignment e"
          and e5: "s_results s' = s_results s3 @ new3"
          and e6: "\<forall>r\<in>set new3. \<exists>ti\<in>set (p_queue (s_pool s3) @ s_test_inputs s3). Q ti r"
          and e7: "map ti_name (s_test_inputs s3) = sends evs3 @ map ti_name (s_test_inputs s')"
          and e8: "st = Returns \<longrightarrow> s_test_inputs s' = []"
          unfolding s3_def by blast
        from turn_runner [of res pool' "name res" s1] obtain es where
          t1: "s_runner s3 = (emit (PoolGet (name res) # es) (s_runner s1))
                 \<lparr>r_gets := Suc (r_gets (s_runner s1))\<rparr>"
          and t2: "\<forall>e\<in>set es. \<not> is_pool_event e \<and> \<not> is_assignment e"
          unfolding s3_def s2_def by blast
        let ?evs = "evs1 @ (PoolGet (name res) # es) @ evs3"
        have A: "events (s_runner s') = events (s_runner s) @ ?evs"
          using e1 t1 d3 by simp
        have "same_args (s_runner s) (s_runner s3)" using t1 d3 by simp
        then have B: "same_args (s_runner s) (s_runner s')" using e2 by (rule same_args_trans)
        have C: "r_host (s_runner s') = r_host (s_runner s)" using e3 t1 d3 by simp
        have D: "\<forall>e\<in>set ?evs. \<not> is_assignment e" using d4 t2 e4 by auto
        have E: "s_results s' = s_results s @ (res # new3)"
          using e5 d1 by (simp add: s3_def s2_def receive_props got_props)
        have sub: "set (p_queue (s_pool s3) @ s_test_inputs s3)
            \<subseteq> set (p_queue (s_pool s) @ s_test_inputs s)"
        proof -
          have "set (p_queue pool') \<subseteq> set (p_queue (s_pool s1))"
            unfolding q' using set_take_subset set_drop_subset by fastforce
          then have "set (p_queue pool' @ s_test_inputs s1)
              \<subseteq> set (p_queue (s_pool s1) @ s_test_inputs s1)" by auto
          then show ?thesis
            unfolding d2 by (simp add: s3_def s2_def receive_props got_props)
        qed
        have F: "\<forall>r\<in>set (res # new3). \<exists>ti\<in>set (p_queue (s_pool s) @ s_test_inputs s). Q ti r"
          using e6 sub Qres tin by (metis set_ConsD subsetD)
        have "sends ?evs = sends evs1 @ sends evs3" using t2 by (simp add: sends_quiet)
        then have G: "map ti_name (s_test_inputs s) = sends ?evs @ map ti_name (s_test_inputs s')"
          using d5 e7 by (simp add: s3_def s2_def receive_props got_props)
        from A B C D E F G e8 show ?thesis by blast
      qed
    qed
  qed
qed



subsection \<open>The scheduler\<close>

lemma new_events_append: "events r' = events r @ evs \<Longrightarrow> new_events r r' = evs"
  by (simp add: new_events_def)


lemma disciplined_quiet_front:
  "\<not> is_pool_event e \<Longrightarrow> disciplined J B pend k (e # es) = disciplined J B pend k es"
  by (cases e) auto



lemma sends_append_quiet:
  "\<forall>e\<in>set b. \<not> is_pool_event e \<or> e = PoolClose \<or> e = PoolJoin \<Longrightarrow> sends b = []"
  by (induction b rule: sends.induct) auto


lemma run_list_frame:
  assumes Q: "\<forall>W ch ti res. fst (run_one_test P W ch ti) = Inr res \<longrightarrow> Q ti res"
    and run: "run_list P env r stats results tis jobs = (st, r', stats', results', tis')"
  shows "same_args r r' \<and> r_host r' = r_host r \<and>
     (\<exists>evs new. events r' = events r @ evs \<and> (\<forall>e\<in>set evs. \<not> is_assignment e) \<and>
        results' = results @ new \<and> (\<forall>res\<in>set new. \<exists>ti\<in>set tis. Q ti res) \<and>
        map ti_name tis = sends evs @ map ti_name tis' \<and>
        (st = Returns \<and> min (int (length tis)) jobs \<noteq> 0 \<longrightarrow> tis' = []))"
proof (cases "min (int (length tis)) jobs = 0")
  case True
  with run have "r' = r" "results' = results" "tis' = tis"
    by (auto simp: run_list_def Let_def)
  then show ?thesis using True by (auto intro: exI [of _ "[]"])
next
  case False
  define j where "j = min (int (length tis)) jobs"
  let ?s = "\<lparr>s_runner = emit [MakePool j] r, s_stats = stats, s_results = results,
         s_test_inputs = tis, s_running_jobs = {}, s_pool = make_pool j\<rparr>"
  obtain st0 s' where loop: "run_list_loop P env ?s = (st0, s')"
    by (cases "run_list_loop P env ?s")
  from run_list_loop_frame [OF Q loop] obtain evs new where
    e1: "events (s_runner s') = events r @ MakePool j # evs"
    and e2: "same_args (emit [MakePool j] r) (s_runner s')"
    and e3: "r_host (s_runner s') = r_host r"
    and e4: "\<forall>e\<in>set evs. \<not> is_assignment e"
    and e5: "s_results s' = results @ new"
    and e6: "\<forall>res\<in>set new. \<exists>ti\<in>set tis. Q ti res"
    and e7: "map ti_name tis = sends evs @ map ti_name (s_test_inputs s')"
    and e8: "st0 = Returns \<longrightarrow> s_test_inputs s' = []"
    by (auto simp: make_pool_def)
  have sa: "same_args r (s_runner s')"
    using same_args_emit e2 by (rule same_args_trans)
  from run False loop have out:
    "st = st0" "results' = s_results s'" "tis' = s_test_inputs s'"
    "r' = (case st0 of Returns \<Rightarrow> emit [PoolClose, PoolJoin] (s_runner s')
           | Raises e \<Rightarrow> emit [PoolJoin] (s_runner s') | Hangs \<Rightarrow> s_runner s')"
    by (auto simp: run_list_def Let_def j_def split: status.splits)
  obtain tl where r': "r' = emit tl (s_runner s')"
    and tl: "\<forall>e\<in>set tl. e = PoolClose \<or> e = PoolJoin"
    using out(4) by (cases st0) (auto intro: that [of "[]"])
  have A: "same_args r r'" using sa r' by (metis same_args_emit same_args_trans)
  have B: "r_host r' = r_host r" using e3 r' by simp
  let ?evs = "MakePool j # evs @ tl"
  have C: "events r' = events r @ ?evs" using e1 r' by simp
  have D: "\<forall>e\<in>set ?evs. \<not> is_assignment e" using e4 tl by auto
  have "sends tl = []" using tl by (intro sends_append_quiet) auto
  then have E: "map ti_name tis = sends ?evs @ map ti_name tis'" using e7 out by simp
  from A B C D E e5 e6 e8 out show ?thesis by blast
qed





lemma emit_inject: "emit a r = emit b r \<Longrightarrow> a = b"
proof -
  assume "emit a r = emit b r"
  then have "events (emit a r) = events (emit b r)" by simp
  then show "a = b" by simp
qed







subsection \<open>One pass over a work set\<close>

text \<open>What a synthesized Skip result shows of its unit.\<close>

lemma skip_tests_props:
  "skip_tests P r stats results tis = (r', stats', results') \<Longrightarrow>
     same_args r r' \<and>
     (\<exists>evs. events r' = events r @ evs \<and>
            (\<forall>e\<in>set evs. \<not> is_pool_event e \<and> \<not> is_assignment e)) \<and>
     (\<exists>new. results' = results @ new \<and>
            map (\<lambda>res. (name res, actual res, expected res, out res, worker res, flaky res)) new
              = map (\<lambda>ti. (ti_name ti, Skip, [Skip], ti_msg ti, 0, d_flaky (dflt P))) tis)"
proof (induction tis arbitrary: r stats results)
  case Nil
  then show ?case by (auto intro: exI [of _ "[]"])
next
  case (Cons ti tis)
  obtain last' h1 where t1: "host_time (r_host r) = (last', h1)" by (cases "host_time (r_host r)")
  define stats1 where "stats1 = stats\<lparr>st_started := st_started stats + 1\<rparr>"
  define r1 where "r1 = print_test_started (r\<lparr>r_host := h1\<rparr>) stats1 ti"
  obtain now h2 where t2: "host_time (r_host r1) = (now, h2)" by (cases "host_time (r_host r1)")
  define res where "res = Result_init (dflt P) (ti_name ti) Skip last' (now - last') 0
                     (Some [Skip]) None None None (Some (ti_msg ti)) None None"
  define stats2 where "stats2 = stats1\<lparr>st_finished := st_finished stats1 + 1\<rparr>"
  define r2 where "r2 = print_test_finished (r1\<lparr>r_host := h2\<rparr>) stats2 res"
  have rec: "skip_tests P r2 stats2 (results @ [res]) tis = (r', stats', results')"
    using Cons.prems t1 t2 unfolding r2_def stats2_def res_def r1_def stats1_def
    by (simp add: Let_def)
  from print_test_started_events [of "r\<lparr>r_host := h1\<rparr>" stats1 ti] obtain es1 where
    p1: "r1 = emit es1 (r\<lparr>r_host := h1\<rparr>)"
    and q1: "\<forall>e\<in>set es1. \<not> is_pool_event e \<and> \<not> is_assignment e" unfolding r1_def by blast
  from print_test_finished_events [of "r1\<lparr>r_host := h2\<rparr>" stats2 res] obtain es2 where
    p2: "r2 = emit es2 (r1\<lparr>r_host := h2\<rparr>)"
    and q2: "\<forall>e\<in>set es2. \<not> is_pool_event e \<and> \<not> is_assignment e" unfolding r2_def by blast
  have sa: "same_args r r2" unfolding p2 p1
    by (cases r) (simp add: same_args_def emit_def)
  have ev: "events r2 = events r @ es1 @ es2" unfolding p2 p1 by (simp add: emit_def)
  from Cons.IH [OF rec] obtain evs new where
    i1: "same_args r2 r'" and i2: "events r' = events r2 @ evs"
    and i3: "\<forall>e\<in>set evs. \<not> is_pool_event e \<and> \<not> is_assignment e"
    and i4: "results' = (results @ [res]) @ new"
    and i5: "map (\<lambda>res. (name res, actual res, expected res, out res, worker res, flaky res)) new
              = map (\<lambda>ti. (ti_name ti, Skip, [Skip], ti_msg ti, 0, d_flaky (dflt P))) tis"
    by blast
  have A: "same_args r r'" using sa i1 by (rule same_args_trans)
  have B: "events r' = events r @ (es1 @ es2 @ evs)" using i2 ev by simp
  have C: "\<forall>e\<in>set (es1 @ es2 @ evs). \<not> is_pool_event e \<and> \<not> is_assignment e"
    using q1 q2 i3 by auto
  have D: "results' = results @ (res # new)" using i4 by simp
  have E: "map (\<lambda>res. (name res, actual res, expected res, out res, worker res, flaky res)) (res # new)
              = map (\<lambda>ti. (ti_name ti, Skip, [Skip], ti_msg ti, 0, d_flaky (dflt P))) (ti # tis)"
    using i5 by (simp add: res_def Result_init_def)
  from A B C D E show ?case by blast
qed


lemma sends_subset:
  "map ti_name tis = sends evs @ map ti_name tis' \<Longrightarrow> set (sends evs) \<subseteq> ti_name ` set tis"
proof -
  assume a: "map ti_name tis = sends evs @ map ti_name tis'"
  have "set (sends evs) \<subseteq> set (sends evs @ map ti_name tis')" by simp
  also have "\<dots> = set (map ti_name tis)" using a by simp
  finally show ?thesis by simp
qed

lemma run_one_set_props:
  assumes Q: "\<forall>W ch ti res. fst (run_one_test P W ch ti) = Inr res \<longrightarrow> Q ti res"
    and run: "run_one_set P env r stats results ts = (st, r', stats', results', ts')"
  shows "same_args r r' \<and>
     (\<exists>evs skipped new. events r' = events r @ evs \<and>
        (\<forall>e\<in>set evs. \<not> is_assignment e) \<and>
        set (sends evs) \<subseteq> ti_name ` (set (parallel_tests ts) \<union> set (isolated_tests ts)) \<and>
        results' = results @ skipped @ new \<and>
        map (\<lambda>res. (name res, actual res, expected res, out res, worker res, flaky res)) skipped
          = map (\<lambda>ti. (ti_name ti, Skip, [Skip], ti_msg ti, 0, d_flaky (dflt P))) (tests_to_skip ts) \<and>
        (\<forall>res\<in>set new. \<exists>ti\<in>set (parallel_tests ts) \<union> set (isolated_tests ts). Q ti res))"
proof -
  define stats0 where "stats0 = stats\<lparr>st_total := length (parallel_tests ts)
                       + length (isolated_tests ts) + length (tests_to_skip ts)\<rparr>"
  obtain r1 stats1 results1 where
    sk: "skip_tests P r stats0 results (tests_to_skip ts) = (r1, stats1, results1)"
    by (cases "skip_tests P r stats0 results (tests_to_skip ts)") auto
  obtain st2 r2 stats2 results2 par' where
    p: "run_list P env r1 stats1 results1 (parallel_tests ts) (args_jobs r1)
          = (st2, r2, stats2, results2, par')"
    by (cases "run_list P env r1 stats1 results1 (parallel_tests ts) (args_jobs r1)") auto
  obtain st3 r3 stats3 results3 iso' where
    i: "run_list P env r2 stats2 results2 (isolated_tests ts) 1
          = (st3, r3, stats3, results3, iso')"
    by (cases "run_list P env r2 stats2 results2 (isolated_tests ts) 1") auto
  from skip_tests_props [OF sk] obtain evs1 skipped where
    s1: "same_args r r1" and s2: "events r1 = events r @ evs1"
    and s3: "\<forall>e\<in>set evs1. \<not> is_pool_event e \<and> \<not> is_assignment e"
    and s4: "results1 = results @ skipped"
    and s5: "map (\<lambda>res. (name res, actual res, expected res, out res, worker res, flaky res)) skipped
          = map (\<lambda>ti. (ti_name ti, Skip, [Skip], ti_msg ti, 0, d_flaky (dflt P))) (tests_to_skip ts)"
    by blast
  from run_list_frame [OF Q p] obtain evs2 new2 where
    p1: "same_args r1 r2" and p2: "events r2 = events r1 @ evs2"
    and p3: "\<forall>e\<in>set evs2. \<not> is_assignment e" and p4: "results2 = results1 @ new2"
    and p5: "\<forall>res\<in>set new2. \<exists>ti\<in>set (parallel_tests ts). Q ti res"
    and p6: "map ti_name (parallel_tests ts) = sends evs2 @ map ti_name par'"
    by blast
  from run_list_frame [OF Q i] obtain evs3 new3 where
    i1: "same_args r2 r3" and i2: "events r3 = events r2 @ evs3"
    and i3: "\<forall>e\<in>set evs3. \<not> is_assignment e" and i4: "results3 = results2 @ new3"
    and i5: "\<forall>res\<in>set new3. \<exists>ti\<in>set (isolated_tests ts). Q ti res"
    and i6: "map ti_name (isolated_tests ts) = sends evs3 @ map ti_name iso'"
    by blast
  have se1: "sends evs1 = []" using s3 by (intro sends_quiet) auto
  note se2 = sends_subset [OF p6] and se3 = sends_subset [OF i6]
  show ?thesis
  proof (cases "st2 = Returns")
    case True
    with run sk p i have o: "r' = r3" "results' = results3"
      by (auto simp: run_one_set_def Let_def stats0_def)
    have A: "same_args r r'" unfolding o
      using s1 p1 i1 by (blast intro: same_args_trans)
    have B: "events r' = events r @ (evs1 @ evs2 @ evs3)" unfolding o using s2 p2 i2 by simp
    have C: "\<forall>e\<in>set (evs1 @ evs2 @ evs3). \<not> is_assignment e" using s3 p3 i3 by auto
    have D: "set (sends (evs1 @ evs2 @ evs3))
        \<subseteq> ti_name ` (set (parallel_tests ts) \<union> set (isolated_tests ts))"
      using se1 se2 se3 by auto
    have E: "results' = results @ skipped @ (new2 @ new3)" unfolding o using s4 p4 i4 by simp
    have F: "\<forall>res\<in>set (new2 @ new3). \<exists>ti\<in>set (parallel_tests ts) \<union> set (isolated_tests ts). Q ti res"
      using p5 i5 by auto
    from A B C D E F s5 show ?thesis by blast
  next
    case False
    with run sk p have o: "r' = r2" "results' = results2"
      by (auto simp: run_one_set_def Let_def stats0_def split: status.splits)
    have A: "same_args r r'" unfolding o using s1 p1 by (rule same_args_trans)
    have B: "events r' = events r @ (evs1 @ evs2)" unfolding o using s2 p2 by simp
    have C: "\<forall>e\<in>set (evs1 @ evs2). \<not> is_assignment e" using s3 p3 by auto
    have D: "set (sends (evs1 @ evs2))
        \<subseteq> ti_name ` (set (parallel_tests ts) \<union> set (isolated_tests ts))"
      using se1 se2 by auto
    have E: "results' = results @ skipped @ new2" unfolding o using s4 p4 by simp
    have F: "\<forall>res\<in>set new2. \<exists>ti\<in>set (parallel_tests ts) \<union> set (isolated_tests ts). Q ti res"
      using p5 by auto
    from A B C D E F s5 show ?thesis by blast
  qed
qed

subsection \<open>Classification\<close>

lemma default_classifier_separated:
  "skip_separated fm sk ts \<Longrightarrow> skip_separated fm sk (default_classifier fm sk il ts nm)"
  by (simp add: skip_separated_def default_classifier_def TestInput_init_def)

lemma add_tests_separated:
  "skip_separated fm sk ts \<Longrightarrow> add_tests (default_classifier fm sk il) F ts obj = Inr ts'
     \<Longrightarrow> skip_separated fm sk ts'"
  "skip_separated fm sk ts \<Longrightarrow> add_tests_each (default_classifier fm sk il) F ts objs = Inr ts'
     \<Longrightarrow> skip_separated fm sk ts'"
proof (induction "default_classifier fm sk il" F ts obj and "default_classifier fm sk il" F ts objs
    arbitrary: ts' and ts' rule: add_tests_add_tests_each.induct)
  case (1 F test_set els)
  then show ?case by simp
next
  case (2 F test_set i)
  then show ?case
    by (auto simp: default_classifier_separated split: if_splits option.splits)
next
  case (3 F test_set)
  then show ?case by simp
next
  case (4 F test_set el els)
  then show ?case by (auto split: sum.splits)
qed

lemma add_loaded_separated:
  "skip_separated fm sk ts \<Longrightarrow> add_loaded (default_classifier fm sk il) F ts loaded = Inr ts'
     \<Longrightarrow> skip_separated fm sk ts'"
proof (induction loaded arbitrary: ts)
  case Nil
  then show ?case by simp
next
  case (Cons a loaded)
  then show ?case
    by (cases a) (auto split: sum.splits dest: add_tests_separated(1))
qed

lemma find_tests_separated:
  assumes "find_tests (default_classifier fm sk il) F loaded = Inr (ret, Some ts)"
  shows "skip_separated fm sk ts"
proof -
  have e: "skip_separated fm sk (make_test_set [] [] [])"
    by (simp add: skip_separated_def make_test_set_def sort_inputs_def)
  from assms obtain ts0 where
    a: "add_loaded (default_classifier fm sk il) F (make_test_set [] [] []) loaded = Inr ts0"
    and t: "ts = ts0\<lparr>parallel_tests := sort_inputs (parallel_tests ts0),
                     isolated_tests := sort_inputs (isolated_tests ts0),
                     tests_to_skip := sort_inputs (tests_to_skip ts0)\<rparr>"
    by (auto simp: find_tests_def split: sum.splits if_splits)
  from add_loaded_separated [OF e a] show ?thesis
    unfolding t by (simp add: skip_separated_def sort_inputs_def list_all_iff)
qed

lemma map_eq_member:
  assumes "map f xs = map g ys" "y \<in> set ys"
  shows "\<exists>x\<in>set xs. f x = g y"
proof -
  from assms(2) have "g y \<in> set (map g ys)" by simp
  with assms(1) have "g y \<in> set (map f xs)" by simp
  then show ?thesis by auto
qed

text \<open>
  Claim C7. The default classifier appends the unit to exactly one bucket: the skip bucket,
  with the message "skipped by request", if its name matches a skip glob; else the isolated
  bucket if it matches an isolate glob; else the parallel bucket. In a pass over a work set
  that discovery built with this classifier, no unit whose name matches a skip glob is
  submitted to a pool, and every unit of the skip bucket matches a skip glob and has a
  synthesized Result with outcome Skip that carries the message.
\<close>

theorem default_classifier_buckets:
  "default_classifier fm sk il ts nm =
     (if matches fm nm sk
      then ts\<lparr>tests_to_skip := tests_to_skip ts @ [TestInput_init nm ''skipped by request'']\<rparr>
      else if matches fm nm il
      then ts\<lparr>isolated_tests := isolated_tests ts @ [TestInput_init nm []]\<rparr>
      else ts\<lparr>parallel_tests := parallel_tests ts @ [TestInput_init nm []]\<rparr>) \<and>
   (find_tests (default_classifier fm sk il) F loaded = Inr (ret, Some found) \<longrightarrow>
      (case run_one_set P env r stats results found of
         (st, r', stats', results', ts') \<Rightarrow>
           (\<forall>n. matches fm n sk \<longrightarrow> PoolSend n \<notin> set (new_events r r')) \<and>
           (\<forall>ti\<in>set (tests_to_skip found).
              matches fm (ti_name ti) sk \<and>
              (\<exists>res\<in>set (drop (length results) results').
                 name res = ti_name ti \<and> actual res = Skip \<and> expected res = [Skip] \<and>
                 worker res = 0 \<and> out res = ''skipped by request''))))"
proof (intro conjI impI)
  show "default_classifier fm sk il ts nm =
     (if matches fm nm sk
      then ts\<lparr>tests_to_skip := tests_to_skip ts @ [TestInput_init nm ''skipped by request'']\<rparr>
      else if matches fm nm il
      then ts\<lparr>isolated_tests := isolated_tests ts @ [TestInput_init nm []]\<rparr>
      else ts\<lparr>parallel_tests := parallel_tests ts @ [TestInput_init nm []]\<rparr>)"
    by (simp add: default_classifier_def)
next
  assume f: "find_tests (default_classifier fm sk il) F loaded = Inr (ret, Some found)"
  from find_tests_separated [OF f]
  have sk1: "\<forall>ti\<in>set (tests_to_skip found).
        ti_msg ti = ''skipped by request'' \<and> matches fm (ti_name ti) sk"
    and sk2: "\<forall>ti\<in>set (parallel_tests found) \<union> set (isolated_tests found).
        \<not> matches fm (ti_name ti) sk"
    by (auto simp: skip_separated_def list_all_iff)
  obtain st r' stats' results' ts' where
    run: "run_one_set P env r stats results found = (st, r', stats', results', ts')"
    by (cases "run_one_set P env r stats results found") auto
  have Q: "\<forall>W ch ti res. fst (run_one_test P W ch ti) = Inr res \<longrightarrow> True" by simp
  from run_one_set_props [OF Q run] obtain evs skipped new where
    ev: "events r' = events r @ evs"
    and sn: "set (sends evs) \<subseteq> ti_name ` (set (parallel_tests found) \<union> set (isolated_tests found))"
    and rs: "results' = results @ skipped @ new"
    and sm: "map (\<lambda>res. (name res, actual res, expected res, out res, worker res, flaky res)) skipped
          = map (\<lambda>ti. (ti_name ti, Skip, [Skip], ti_msg ti, 0, d_flaky (dflt P))) (tests_to_skip found)"
    by blast
  have ne: "new_events r r' = evs" using ev by (rule new_events_append)
  have in_sends: "\<And>n es. PoolSend n \<in> set es \<Longrightarrow> n \<in> set (sends es)"
  proof -
    fix n es show "PoolSend n \<in> set es \<Longrightarrow> n \<in> set (sends es)"
      by (induction es rule: sends.induct) auto
  qed
  have A: "\<forall>n. matches fm n sk \<longrightarrow> PoolSend n \<notin> set (new_events r r')"
  proof (intro allI impI notI)
    fix n assume m: "matches fm n sk" and "PoolSend n \<in> set (new_events r r')"
    then have "n \<in> set (sends evs)" using ne in_sends by simp
    with sn sk2 m show False by auto
  qed
  have B: "\<forall>ti\<in>set (tests_to_skip found).
              matches fm (ti_name ti) sk \<and>
              (\<exists>res\<in>set (drop (length results) results').
                 name res = ti_name ti \<and> actual res = Skip \<and> expected res = [Skip] \<and>
                 worker res = 0 \<and> out res = ''skipped by request'')"
  proof
    fix ti assume t: "ti \<in> set (tests_to_skip found)"
    from map_eq_member [OF sm t] obtain res where rin: "res \<in> set skipped"
      and req: "(name res, actual res, expected res, out res, worker res, flaky res)
          = (ti_name ti, Skip, [Skip], ti_msg ti, 0, d_flaky (dflt P))" by blast
    from rin rs have r1: "res \<in> set (drop (length results) results')" by simp
    from sk1 t have m: "ti_msg ti = ''skipped by request''" "matches fm (ti_name ti) sk" by auto
    from req m(1) have "name res = ti_name ti \<and> actual res = Skip \<and> expected res = [Skip] \<and>
                 worker res = 0 \<and> out res = ''skipped by request''" by simp
    with r1 m(2) show "matches fm (ti_name ti) sk \<and>
              (\<exists>res\<in>set (drop (length results) results').
                 name res = ti_name ti \<and> actual res = Skip \<and> expected res = [Skip] \<and>
                 worker res = 0 \<and> out res = ''skipped by request'')"
      by blast
  qed
  from A B run show "case run_one_set P env r stats results found of
         (st, r', stats', results', ts') \<Rightarrow>
           (\<forall>n. matches fm n sk \<longrightarrow> PoolSend n \<notin> set (new_events r r')) \<and>
           (\<forall>ti\<in>set (tests_to_skip found).
              matches fm (ti_name ti) sk \<and>
              (\<exists>res\<in>set (drop (length results) results').
                 name res = ti_name ti \<and> actual res = Skip \<and> expected res = [Skip] \<and>
                 worker res = 0 \<and> out res = ''skipped by request''))"
    by simp
qed

theorem default_classifier_buckets_witness:
  "find_tests (default_classifier glob [''pkg.mod.*''] []) no_failed_loads
       [Inr (TestSuite [TestCase ''pkg.mod.T.t'', TestCase ''pkg.other.T.t''])]
     = Inr (0, Some (make_test_set (inputs [''pkg.other.T.t'']) []
                       [TestInput_init ''pkg.mod.T.t'' ''skipped by request''])) \<and>
   default_classifier glob [''pkg.mod.*''] [] (make_test_set [] [] []) ''pkg.mod.T.t'' =
     (if matches glob ''pkg.mod.T.t'' [''pkg.mod.*'']
      then (make_test_set [] [] [])\<lparr>tests_to_skip := tests_to_skip (make_test_set [] [] [])
               @ [TestInput_init ''pkg.mod.T.t'' ''skipped by request'']\<rparr>
      else if matches glob ''pkg.mod.T.t'' []
      then (make_test_set [] [] [])\<lparr>isolated_tests := isolated_tests (make_test_set [] [] [])
               @ [TestInput_init ''pkg.mod.T.t'' []]\<rparr>
      else (make_test_set [] [] [])\<lparr>parallel_tests := parallel_tests (make_test_set [] [] [])
               @ [TestInput_init ''pkg.mod.T.t'' []]\<rparr>) \<and>
   (case run_one_set (params Py3) env_fifo runner0 stats0 []
           (make_test_set (inputs [''pkg.other.T.t'']) []
              [TestInput_init ''pkg.mod.T.t'' ''skipped by request'']) of
      (st, r', stats', results', ts') \<Rightarrow>
        (\<forall>n. matches glob n [''pkg.mod.*''] \<longrightarrow> PoolSend n \<notin> set (new_events runner0 r')) \<and>
        (\<forall>ti\<in>set (tests_to_skip (make_test_set (inputs [''pkg.other.T.t'']) []
                         [TestInput_init ''pkg.mod.T.t'' ''skipped by request''])).
           matches glob (ti_name ti) [''pkg.mod.*''] \<and>
           (\<exists>res\<in>set (drop (length ([]::Result list)) results').
              name res = ti_name ti \<and> actual res = Skip \<and> expected res = [Skip] \<and>
              worker res = 0 \<and> out res = ''skipped by request''))) \<and>
   map (\<lambda>res. (name res, actual res, out res))
     (fst (snd (snd (snd (run_one_set (params Py3) env_fifo runner0 stats0 []
        (make_test_set (inputs [''pkg.other.T.t'']) []
           [TestInput_init ''pkg.mod.T.t'' ''skipped by request''])))))) =
     [(''pkg.mod.T.t'', Skip, ''skipped by request''), (''pkg.other.T.t'', Pass, [])]"
proof -
  have h: "find_tests (default_classifier glob [''pkg.mod.*''] []) no_failed_loads
       [Inr (TestSuite [TestCase ''pkg.mod.T.t'', TestCase ''pkg.other.T.t''])]
     = Inr (0, Some (make_test_set (inputs [''pkg.other.T.t'']) []
                       [TestInput_init ''pkg.mod.T.t'' ''skipped by request'']))"
    by code_simp
  have v: "map (\<lambda>res. (name res, actual res, out res))
     (fst (snd (snd (snd (run_one_set (params Py3) env_fifo runner0 stats0 []
        (make_test_set (inputs [''pkg.other.T.t'']) []
           [TestInput_init ''pkg.mod.T.t'' ''skipped by request''])))))) =
     [(''pkg.mod.T.t'', Skip, ''skipped by request''), (''pkg.other.T.t'', Pass, [])]"
    by code_simp
  note T = default_classifier_buckets [where fm = glob and sk = "[''pkg.mod.*'']" and il = "[]"
      and ts = "make_test_set [] [] []" and nm = "''pkg.mod.T.t''" and F = no_failed_loads
      and loaded = "[Inr (TestSuite [TestCase ''pkg.mod.T.t'', TestCase ''pkg.other.T.t''])]"
      and ret = 0
      and found = "make_test_set (inputs [''pkg.other.T.t'']) []
                       [TestInput_init ''pkg.mod.T.t'' ''skipped by request'']"
      and P = "params Py3" and env = env_fifo and r = runner0 and stats = stats0
      and results = "[]"]
  note A = T [THEN conjunct1] and C = T [THEN conjunct2, THEN mp, OF h]
  show ?thesis by (rule conjI [OF h conjI [OF A conjI [OF C v]]])
qed

subsection \<open>Retrying\<close>


lemma finite_failed_test_names [simp]: "finite (failed_test_names results)"
  by (simp add: failed_test_names_def)
























subsection \<open>Outcome classification\<close>

text \<open>
  Claim C3. For every raw outcome record the classification follows the fixed precedence:
  a failure, else an error, gives (Failure, [Pass], unexpected, 1); else a skip gives
  (Skip, [Skip], expected, 0); else an expected failure gives (Failure, [Failure],
  expected, 1); else an unexpected success gives (Pass, [Failure], unexpected, 0); else
  (Pass, [Pass], expected, 0).
\<close>

theorem result_from_test_result_precedence:
  "verdict (result_from_test_result d tr n s t ou er w p) =
     (if failures tr \<noteq> [] then (Failure, [Pass], True, 1)
      else if errors tr \<noteq> [] then (Failure, [Pass], True, 1)
      else if skipped tr \<noteq> [] then (Skip, [Skip], False, 0)
      else if expectedFailures tr \<noteq> [] then (Failure, [Failure], False, 1)
      else if unexpectedSuccesses tr \<noteq> [] then (Pass, [Failure], True, 0)
      else (Pass, [Pass], False, 0))"
  by (simp add: verdict_def result_from_test_result_def Result_init_def)

subsection \<open>Fallback resolution\<close>

lemma scan_suite_exact:
  "scan_suite n s = Inr found \<Longrightarrow> found = (if TestCase n \<in> set s then [TestCase n] else [])"
  by (induction n s rule: scan_suite.induct) (auto split: if_splits)

lemma load_suite_cached_stable:
  "load_suite_cached W cache nm = Inr cache' \<Longrightarrow>
     cache' nm \<noteq> None \<and> (\<forall>p v. cache p = Some v \<longrightarrow> cache' p = Some v)"
  by (auto simp: load_suite_cached_def split: if_splits sum.splits)

lemma walk_names_step:
  "comps \<noteq> [] \<Longrightarrow> walk_names comps = join ''.'' comps # walk_names (butlast comps)"
  by (simp add: walk_names.simps [of comps])

lemma load_via_loop_exact:
  "load_via_loop W n comps cache acc = (Inr res, cache') \<Longrightarrow>
     res = acc @ concat (map (\<lambda>p. first_match n (cache' p)) (walk_names comps))
     \<and> (\<forall>p v. cache p = Some v \<longrightarrow> cache' p = Some v)
     \<and> (\<forall>p \<in> set (walk_names comps). cache' p \<noteq> None)"
proof (induction W n comps cache acc rule: load_via_loop.induct)
  case (1 W test_name comps cache new_suite)
  show ?case
  proof (cases "comps = []")
    case True
    with "1.prems" show ?thesis
      by (simp add: load_via_loop.simps [of _ _ "[]"] walk_names.simps [of "[]"])
  next
    case False
    define nm where "nm = join ''.'' comps"
    from "1.prems" False obtain c1 where c1: "load_suite_cached W cache nm = Inr c1"
      by (auto simp: load_via_loop.simps [of W test_name comps] nm_def Let_def split: sum.splits)
    note st1 = load_suite_cached_stable [OF c1]
    from st1 obtain v where v: "c1 nm = Some v" by auto
    have wn: "walk_names comps = nm # walk_names (butlast comps)"
      using False by (simp add: nm_def walk_names_step)
    have unf: "load_via_loop W test_name comps cache new_suite =
      (case c1 nm of None \<Rightarrow> (Inl (KeyError nm), c1)
       | Some None \<Rightarrow> load_via_loop W test_name (butlast comps) c1 new_suite
       | Some (Some suite) \<Rightarrow>
           (case scan_suite test_name suite of Inl e \<Rightarrow> (Inl e, c1)
            | Inr found \<Rightarrow> load_via_loop W test_name (butlast comps) c1 (new_suite @ found)))"
      using False c1 unfolding nm_def
      by (simp add: load_via_loop.simps [of W test_name comps] Let_def)
    show ?thesis
    proof (cases v)
      case None
      with "1.prems" unf v
      have rec: "load_via_loop W test_name (butlast comps) c1 new_suite = (Inr res, cache')"
        by simp
      from "1.IH"(1) [OF False nm_def c1 v None rec]
      have r: "res = new_suite @ concat (map (\<lambda>p. first_match test_name (cache' p))
                 (walk_names (butlast comps)))"
        and m2: "\<forall>p v. c1 p = Some v \<longrightarrow> cache' p = Some v"
        and w2: "\<forall>p\<in>set (walk_names (butlast comps)). cache' p \<noteq> None"
        by blast+
      from m2 v None have e: "cache' nm = Some None" by simp
      have A: "res = new_suite @ concat (map (\<lambda>p. first_match test_name (cache' p))
                 (walk_names comps))"
        unfolding wn using r e by (simp add: first_match_def)
      from st1 m2 have B: "\<forall>p v. cache p = Some v \<longrightarrow> cache' p = Some v" by blast
      from e w2 have C: "\<forall>p\<in>set (walk_names comps). cache' p \<noteq> None"
        unfolding wn by simp
      from A B C show ?thesis by blast
    next
      case (Some suite)
      with "1.prems" unf v obtain found where
        f: "scan_suite test_name suite = Inr found" and
        rec: "load_via_loop W test_name (butlast comps) c1 (new_suite @ found) = (Inr res, cache')"
        by (auto split: sum.splits)
      from "1.IH"(2) [OF False nm_def c1 v Some f rec]
      have r: "res = (new_suite @ found) @ concat (map (\<lambda>p. first_match test_name (cache' p))
                 (walk_names (butlast comps)))"
        and m2: "\<forall>p v. c1 p = Some v \<longrightarrow> cache' p = Some v"
        and w2: "\<forall>p\<in>set (walk_names (butlast comps)). cache' p \<noteq> None"
        by blast+
      from m2 v Some have e: "cache' nm = Some (Some suite)" by simp
      then have fm: "first_match test_name (cache' nm) = found"
        using scan_suite_exact [OF f] by (simp add: first_match_def)
      have A: "res = new_suite @ concat (map (\<lambda>p. first_match test_name (cache' p))
                 (walk_names comps))"
        unfolding wn using r fm by simp
      from st1 m2 have B: "\<forall>p v. cache p = Some v \<longrightarrow> cache' p = Some v" by blast
      from e w2 have C: "\<forall>p\<in>set (walk_names comps). cache' p \<noteq> None"
        unfolding wn by simp
      from A B C show ?thesis by blast
    qed
  qed
qed

text \<open>
  What the fallback resolution returns: every prefix of the dotted name, from the most
  specific to the least specific, has an entry in the cache of loaded suites, and each
  prefix whose group holds the requested unit contributes it once, in that order. The walk
  does not stop at a match.
\<close>

lemma load_via_load_tests_collects:
  "load_via_load_tests W child test_name = (Inr new_suite, child') \<Longrightarrow>
     new_suite = concat (map (\<lambda>p. first_match test_name (loaded_suites child' p))
                   (walk_names (split_on CHR ''.'' test_name))) \<and>
     (\<forall>p \<in> set (walk_names (split_on CHR ''.'' test_name)). loaded_suites child' p \<noteq> None)"
proof -
  assume a: "load_via_load_tests W child test_name = (Inr new_suite, child')"
  obtain r cache where l: "load_via_loop W test_name (split_on CHR ''.'' test_name)
      (loaded_suites child) [] = (r, cache)"
    by (cases "load_via_loop W test_name (split_on CHR ''.'' test_name) (loaded_suites child) []")
  with a have r: "r = Inr new_suite" and c: "loaded_suites child' = cache"
    by (auto simp: load_via_load_tests_def)
  from load_via_loop_exact [OF l [unfolded r]] c show ?thesis by simp
qed

text \<open>
  Claim C2. The claim has the walk stop at the first prefix whose group holds the requested
  unit, so that the returned group holds it at most once. In the code the \<^verbatim>\<open>break\<close> leaves
  only the inner \<^verbatim>\<open>for\<close>; \<^verbatim>\<open>comps.pop()\<close> and the \<^verbatim>\<open>while\<close> go on to the shorter
  prefixes. With the module \<^verbatim>\<open>a.b\<close> and its package \<^verbatim>\<open>a\<close> both exposing the unit
  \<^verbatim>\<open>a.b.T.t\<close>, all four prefixes are walked, both groups are loaded, and the returned group
  holds the unit twice; \<^verbatim>\<open>_run_one_test\<close> then finds \<^verbatim>\<open>len(tests) != 1\<close> and reports the
  loadable unit as a Failure \<^verbatim>\<open>failed to load\<close> (under Python 2). The unit \<^verbatim>\<open>a.c\<close>, which
  only the package exposes, is found once and passes.
\<close>

theorem load_via_load_tests_second_match:
  "walk_names (split_on CHR ''.'' ''a.b.T.t'') = [''a.b.T.t'', ''a.b.T'', ''a.b'', ''a''] \<and>
   fst (load_via_load_tests world_load_tests child0 ''a.b.T.t'')
     = Inr [TestCase ''a.b.T.t'', TestCase ''a.b.T.t''] \<and>
   loaded_suites (snd (load_via_load_tests world_load_tests child0 ''a.b.T.t'')) ''a.b''
     = Some (Some [TestCase ''a.b.T.t'']) \<and>
   loaded_suites (snd (load_via_load_tests world_load_tests child0 ''a.b.T.t'')) ''a''
     = Some (Some [TestCase ''a.c'', TestCase ''a.b.T.t'']) \<and>
   (case fst (run_one_test (params Py2) world_load_tests child0 (TestInput_init ''a.b.T.t'' [])) of
      Inl e \<Rightarrow> False
    | Inr res \<Rightarrow> actual res = Failure \<and> unexpected res \<and> code res = 1 \<and>
        err res = ''failed to load a.b.T.t: a.b.T.t'') \<and>
   fst (load_via_load_tests world_load_tests child0 ''a.c'') = Inr [TestCase ''a.c''] \<and>
   (case fst (run_one_test (params Py2) world_load_tests child0 (TestInput_init ''a.c'' [])) of
      Inl e \<Rightarrow> False
    | Inr res \<Rightarrow> actual res = Pass \<and> \<not> unexpected res \<and> code res = 0)"
  by code_simp

subsection \<open>Units that do not resolve to exactly one runnable unit\<close>

theorem run_one_test_wrong_cardinality_raises:
  "fst (run_one_test (params Py2) world_direct child0 (TestInput_init ''m.T'' [])) = Inl unbound_e \<and>
   fst (run_one_test (params Py3) world_direct child0 (TestInput_init ''m.T'' [])) = Inl unbound_e \<and>
   fst (run_one_test (params Py2) world_direct child0 (TestInput_init ''m.Empty'' [])) = Inl unbound_e \<and>
   fst (run_one_test (params Py3) world_load_tests child0 (TestInput_init ''a.b.T.t'' [])) = Inl unbound_e \<and>
   h_capturing (c_host (snd (run_one_test (params Py2) world_direct child0 (TestInput_init ''m.T'' []))))"
  by code_simp

lemma run_one_test_py2_fallback_failure:
  "fst (run_one_test (params Py2) world_load_tests child0 (TestInput_init ''a.b.T.t'' []))
     = Inr \<lparr>name = ''a.b.T.t'', actual = Failure, started = 0, took = 0, worker = 1,
            expected = [Pass], unexpected = True, flaky = False, code = 1, out = [],
            err = ''failed to load a.b.T.t: a.b.T.t'', pid = 7\<rparr> \<and>
   \<not> h_capturing (c_host (snd (run_one_test (params Py2) world_load_tests child0
        (TestInput_init ''a.b.T.t'' []))))"
  by code_simp

subsection \<open>Metadata\<close>

theorem trace_from_results_two_equals_raises:
  "fst (parse_args Py3 False (rargs0\<lparr>ra_metadata := [''a=b=c'']\<rparr>)) = None \<and>
   (case trace_from_results (runner0\<lparr>args_metadata := [''a=b=c'']\<rparr>) stats0 [] of
      Inl e \<Rightarrow> e = ValueError ''too many values to unpack'' | Inr tr \<Rightarrow> False) \<and>
   map_option fst (main (params Py3) env_fifo None False (rargs0\<lparr>ra_metadata := [''a=b=c'']\<rparr>)
       runner0 stats0 (Some (make_test_set (inputs [''a'']) [] [])))
     = Some (Raises (ValueError ''too many values to unpack''))"
  by code_simp

(*THMS*)

end
